theory Spec2Isabelle
  imports Main "HOL-Library.Word"
begin

section \<open>Errors\<close>

text \<open>
  \<^verbatim>\<open>EError\<close> is the closed enumeration of error kinds carried by \<^verbatim>\<open>TError\<close>
  (util/error.hpp). A \<^verbatim>\<open>TError\<close> is the triple of kind, errno and text; the
  default-constructed value \<^verbatim>\<open>OK\<close> has kind \<^verbatim>\<open>Success\<close>, and the conversion to
  bool (\<^verbatim>\<open>if (error)\<close>) tests the kind against \<^verbatim>\<open>Success\<close>.
\<close>

datatype EError =
    Success | Unknown | InvalidValue | InvalidProperty | InvalidState
  | Permission | Busy | NotSupported | NoValue | ResourceNotAvailable
  | ContainerDoesNotExist | ContainerAlreadyExists | Queued

record TError =
  Error :: EError
  Errno :: int
  Text :: string

definition OK :: TError where
  "OK = \<lparr>Error = Success, Errno = 0, Text = []\<rparr>"

definition mkError :: "EError \<Rightarrow> string \<Rightarrow> TError" where
  "mkError err text = \<lparr>Error = err, Errno = 0, Text = text\<rparr>"

definition failed :: "TError \<Rightarrow> bool" where
  "failed e = (Error e \<noteq> Success)"

text \<open>
  \<^verbatim>\<open>TError(const TError &other, fmt, args...)\<close> keeps the kind and errno of the
  wrapped error and prefixes its text.
\<close>

definition wrapError :: "TError \<Rightarrow> string \<Rightarrow> TError" where
  "wrapError other text =
     \<lparr>Error = Error other, Errno = Errno other, Text = text @ '': '' @ Text other\<rparr>"

text \<open>Decimal rendering of a number, as \<^verbatim>\<open>std::to_string\<close> and \<^verbatim>\<open>{}\<close> produce it.\<close>

fun to_string :: "nat \<Rightarrow> string" where
  "to_string n =
     (if n < 10 then [''0123456789'' ! n]
      else to_string (n div 10) @ [''0123456789'' ! (n mod 10)])"

declare to_string.simps [simp del]

text \<open>\<^verbatim>\<open>StringFormat("%#x", (unsigned char)c)\<close>: lower-case hexadecimal, prefixed by
  \<^verbatim>\<open>0x\<close> unless the value is zero.\<close>

fun hex_digits :: "nat \<Rightarrow> string" where
  "hex_digits n =
     (if n < 16 then [''0123456789abcdef'' ! n]
      else hex_digits (n div 16) @ [''0123456789abcdef'' ! (n mod 16)])"

declare hex_digits.simps [simp del]

definition format_hex :: "char \<Rightarrow> string" where
  "format_hex c = (if of_char c = (0::nat) then ''0'' else ''0x'' @ hex_digits (of_char c))"

section \<open>Name validation\<close>

text \<open>Constants of common.hpp.\<close>

definition ROOT_CONTAINER :: string where "ROOT_CONTAINER = ''/''"
definition DOT_CONTAINER :: string where "DOT_CONTAINER = ''.''"
definition SELF_CONTAINER :: string where "SELF_CONTAINER = ''self''"
definition CONTAINER_NAME_MAX :: nat where "CONTAINER_NAME_MAX = 128"
definition CONTAINER_PATH_MAX :: nat where "CONTAINER_PATH_MAX = 200"
definition CONTAINER_PATH_MAX_FOR_SUPERUSER :: nat where "CONTAINER_PATH_MAX_FOR_SUPERUSER = 220"

text \<open>
  The \<^verbatim>\<open>case\<close> labels of the switch in \<^verbatim>\<open>TContainer::ValidName\<close> that fall to
  \<^verbatim>\<open>/* Ok */\<close>: the ranges \<^verbatim>\<open>'a'...'z'\<close>, \<^verbatim>\<open>'A'...'Z'\<close>, \<^verbatim>\<open>'0'...'9'\<close> and the
  five punctuation characters.
\<close>

definition name_char :: "char \<Rightarrow> bool" where
  "name_char c =
     ((97 \<le> (of_char c :: nat) \<and> (of_char c :: nat) \<le> 122) \<or>
      (65 \<le> (of_char c :: nat) \<and> (of_char c :: nat) \<le> 90) \<or>
      (48 \<le> (of_char c :: nat) \<and> (of_char c :: nat) \<le> 57) \<or>
      c = CHR ''_'' \<or> c = CHR ''-'' \<or> c = CHR ''@'' \<or> c = CHR '':'' \<or> c = CHR ''.'')"

text \<open>
  The body of \<^verbatim>\<open>case '/': case '\0':\<close>: the checks on the component
  \<^verbatim>\<open>name.substr(first, i - first)\<close> that ends at position \<^verbatim>\<open>i\<close>.
\<close>

definition ValidName_component :: "string \<Rightarrow> string \<Rightarrow> TError" where
  "ValidName_component name part =
     (if length part = 0 then
        mkError InvalidValue (''double/trailing '' @ [CHR 0x27] @ ''/'' @ [CHR 0x27] @
                              '' in container path: '' @ name)
      else if length part > CONTAINER_NAME_MAX then
        mkError InvalidValue (''container name component too long, limit is '' @
                              to_string CONTAINER_NAME_MAX @ '': '' @ [CHR 0x27] @ part @ [CHR 0x27])
      else if part = SELF_CONTAINER then
        mkError InvalidValue (''container name '' @ [CHR 0x27] @ ''self'' @ [CHR 0x27] @ '' is reserved'')
      else if part = DOT_CONTAINER then
        mkError InvalidValue (''container name '' @ [CHR 0x27] @ ''.'' @ [CHR 0x27] @ '' is reserved'')
      else OK)"

text \<open>
  The loop \<^verbatim>\<open>for (first = 0, i = 0; i <= name.length(); i++) switch (name[i])\<close>.
  The second argument is the component read so far, \<^verbatim>\<open>name.substr(first, i - first)\<close>;
  the third is the rest of the string from position \<^verbatim>\<open>i\<close>. At \<^verbatim>\<open>i = name.length()\<close>
  the subscript yields the terminating \<^verbatim>\<open>'\0'\<close>, which is the empty-rest equation. A
  \<^verbatim>\<open>'\0'\<close> byte inside the string takes the same \<^verbatim>\<open>case\<close> as \<^verbatim>\<open>'/'\<close>.
\<close>

fun ValidName_loop :: "string \<Rightarrow> string \<Rightarrow> string \<Rightarrow> TError" where
  "ValidName_loop name part [] = ValidName_component name part"
| "ValidName_loop name part (c # cs) =
     (if c = CHR ''/'' \<or> c = CHR 0x00 then
        (if failed (ValidName_component name part) then ValidName_component name part
         else ValidName_loop name [] cs)
      else if name_char c then ValidName_loop name (part @ [c]) cs
      else mkError InvalidValue (''forbidden character '' @ format_hex c))"

definition ValidName :: "string \<Rightarrow> bool \<Rightarrow> TError" where
  "ValidName name superuser =
     (if length name = 0 then mkError InvalidValue ''container path too short''
      else
        let path_max = (if superuser then CONTAINER_PATH_MAX_FOR_SUPERUSER else CONTAINER_PATH_MAX) in
        if length name > path_max then
          mkError InvalidValue (''container path too long, limit is '' @ to_string path_max)
        else if hd name = CHR ''/'' then
          (if name = ROOT_CONTAINER then OK
           else mkError InvalidValue (''container path starts with '' @ [CHR 0x27] @ ''/'' @
                                      [CHR 0x27] @ '': '' @ name))
        else ValidName_loop name [] name)"

text \<open>
  The name grammar in the words of the specification: a path is split at every
  \<^verbatim>\<open>/\<close>; a component is valid when it is not empty, has at most 128 bytes, is
  neither \<^verbatim>\<open>.\<close> nor \<^verbatim>\<open>self\<close> and consists of characters of the charset.
\<close>

fun split_slash :: "string \<Rightarrow> string list" where
  "split_slash [] = [[]]"
| "split_slash (c # cs) =
     (if c = CHR ''/'' then [] # split_slash cs
      else (c # hd (split_slash cs)) # tl (split_slash cs))"

definition spec_component :: "string \<Rightarrow> bool" where
  "spec_component part =
     (part \<noteq> [] \<and> length part \<le> 128 \<and> part \<noteq> ''.'' \<and> part \<noteq> ''self'' \<and>
      list_all name_char part)"

definition spec_valid_name :: "string \<Rightarrow> bool \<Rightarrow> bool" where
  "spec_valid_name name superuser =
     (name = ''/'' \<or>
      (length name \<le> (if superuser then 220 else 200) \<and>
       list_all spec_component (split_slash name)))"


section \<open>Container records and the container tree\<close>

text \<open>
  \<^verbatim>\<open>EContainerState\<close>, in the order of \<^verbatim>\<open>TContainer::StateName\<close>.
\<close>

datatype EContainerState =
    Stopped | Dead | Starting | Running | Stopping | Paused | Meta | Destroyed

fun StateName :: "EContainerState \<Rightarrow> string" where
  "StateName Stopped = ''stopped''"
| "StateName Dead = ''dead''"
| "StateName Starting = ''starting''"
| "StateName Running = ''running''"
| "StateName Stopping = ''stopping''"
| "StateName Paused = ''paused''"
| "StateName Meta = ''meta''"
| "StateName Destroyed = ''destroyed''"

text \<open>
  The property tags \<^verbatim>\<open>EProperty::...\<close> that container.cpp names, and the cgroup
  controllers \<^verbatim>\<open>CGROUP_...\<close>. The controller masks are 64-bit words in the source
  with one bit per controller; the numeric values of the bits are declared in a header
  that is not among the sources, so a mask is modelled as the set of its controllers:
  \<^verbatim>\<open>Controllers & CGROUP_X\<close> is membership and \<^verbatim>\<open>|=\<close> is union.
\<close>

datatype EProperty =
    NONE | RESOLV_CONF | CPU_SET_AFFINITY | START_TIME | CPU_SET | CPU_LIMIT | CAPABILITIES
  | THREAD_LIMIT | STATE | SEIZE_PID | ROOT_PID | RESPAWN_COUNT | OOM_KILLED | MEM_LIMIT
  | IO_POLICY | EXIT_STATUS | DEVICE_CONF | DEATH_TIME | CPU_WEIGHT | CPU_POLICY | CPU_PERIOD
  | CONTROLLERS | USER | ULIMIT | SYMLINK | RECHARGE_ON_PGFAULT | PRESSURIZE_ON_DEATH
  | PORTO_NAMESPACE | PLACE | OWNER_USER | OWNER_GROUP | NET_RX_LIMIT | NET_PRIO | NET_LIMIT
  | NET_GUARANTEE | MEM_GUARANTEE | IO_WEIGHT | IO_OPS_LIMIT | IO_LIMIT | HUGETLB_LIMIT
  | GROUP | ENABLE_PORTO | DIRTY_LIMIT | CPU_GUARANTEE | COMMAND | ANON_LIMIT | HOSTNAME

datatype controller =
    CGROUP_FREEZER | CGROUP_MEMORY | CGROUP_CPU | CGROUP_CPUACCT | CGROUP_NETCLS
  | CGROUP_BLKIO | CGROUP_DEVICES | CGROUP_HUGETLB | CGROUP_CPUSET | CGROUP_PIDS
  | CGROUP_SYSTEMD

datatype ECpuSetType = Inherit | Absolute | Node_t | Cores | Threads | Reserve

text \<open>
  The members of \<^verbatim>\<open>TContainer\<close> that the functions below read or write. Counters
  and lock slots are C++ \<^verbatim>\<open>int\<close>s whose values stay within the number of containers
  and of lock holders, so they are unbounded integers here; byte and CPU-power
  quantities are \<^verbatim>\<open>uint64_t\<close> and wrap. A \<^verbatim>\<open>TBitMap\<close> is the set of its set bits.

  \<open>Id_no\<close> is the member \<^verbatim>\<open>Id\<close>, and the pids of \<^verbatim>\<open>Task\<close>, \<^verbatim>\<open>WaitTask\<close> and
  \<^verbatim>\<open>SeizeTask\<close> are \<open>TaskPid\<close>, \<open>WaitTaskPid\<close> and \<open>SeizeTaskPid\<close>.

  Three fields stand for state that the source keeps elsewhere:
  \<^item> \<open>IsMeta\<close> is the result of the method \<^verbatim>\<open>IsMeta()\<close> (declared in container.hpp,
    which is not among the sources): the container needs no task of its own;
  \<^item> \<open>SelfFreezing\<close> is the kernel's \<^verbatim>\<open>freezer.self_freezing\<close> of the container's
    freezer cgroup, what \<^verbatim>\<open>FreezerSubsystem.IsSelfFreezing\<close> reads;
  \<^item> \<open>Notified\<close> counts the calls of \<^verbatim>\<open>NotifyWaiters()\<close> on the container.
\<close>

record container =
  Id_no :: nat
  Name :: string
  State :: EContainerState
  IsMeta :: bool
  Isolate :: bool
  Hostname :: string
  Controllers :: "controller set"
  RequiredControllers :: "controller set"
  PropSet :: "EProperty set"
  PropDirty :: "EProperty set"
  Locked :: int
  PendingWrite :: bool
  SubtreeRead :: int
  SubtreeWrite :: int
  LastOwner :: int
  StartingChildren :: int
  RunningChildren :: int
  Notified :: nat
  MemLimit :: "64 word"
  NewMemGuarantee :: "64 word"
  CpuSetType :: ECpuSetType
  CpuSetArg :: nat
  CpuAffinity :: "nat set"
  CpuVacant :: "nat set"
  CpuReserve :: "nat set"
  CpuGuarantee :: "64 word"
  CpuGuaranteeSum :: "64 word"
  TaskPid :: int
  TaskVPid :: int
  WaitTaskPid :: int
  SeizeTaskPid :: int
  StartTime :: "64 word"
  DeathTime :: "64 word"
  ExitStatus :: int
  OomEvents :: "64 word"
  OomKilled :: bool
  SelfFreezing :: bool

text \<open>
  The container hierarchy. Every container owns the list of its children
  (\<^verbatim>\<open>Children\<close>); the \<^verbatim>\<open>Parent\<close> pointer is the way back up. A container is
  addressed by the positions of the children taken on the way down from the root, so
  the root is \<open>[]\<close>, \<^verbatim>\<open>IsRoot()\<close> is \<open>p = []\<close>, and the \<^verbatim>\<open>Parent\<close> chain of a
  container is the list of the nodes passed on the way down, read backwards.
\<close>

datatype ctree = Node (node_ct: container) (Children: "ctree list")

type_synonym ptr = "nat list"

fun lookup :: "ctree \<Rightarrow> ptr \<Rightarrow> ctree option" where
  "lookup t [] = Some t"
| "lookup (Node c ts) (i # p) = (if i < length ts then lookup (ts ! i) p else None)"

definition get_ct :: "ctree \<Rightarrow> ptr \<Rightarrow> container option" where
  "get_ct t p = map_option node_ct (lookup t p)"

text \<open>\<open>update f p t\<close> is an assignment to fields of the container at \<open>p\<close>.\<close>

fun update :: "(container \<Rightarrow> container) \<Rightarrow> ptr \<Rightarrow> ctree \<Rightarrow> ctree" where
  "update f [] (Node c ts) = Node (f c) ts"
| "update f (i # p) (Node c ts) =
     (if i < length ts then Node c (ts[i := update f p (ts ! i)]) else Node c ts)"

text \<open>
  The loop \<^verbatim>\<open>for (auto ct = Parent.get(); ct; ct = ct->Parent.get())\<close>: \<open>ancestors\<close>
  lists the containers it visits, nearest first, and \<open>update_ancestors f\<close> is the loop
  with a body that assigns to fields of \<^verbatim>\<open>ct\<close> only.
\<close>

fun path_nodes :: "ctree \<Rightarrow> ptr \<Rightarrow> container list" where
  "path_nodes t [] = []"
| "path_nodes (Node c ts) (i # p) = c # (if i < length ts then path_nodes (ts ! i) p else [])"

definition ancestors :: "ctree \<Rightarrow> ptr \<Rightarrow> container list" where
  "ancestors t p = rev (path_nodes t p)"

fun update_ancestors :: "(container \<Rightarrow> container) \<Rightarrow> ptr \<Rightarrow> ctree \<Rightarrow> ctree" where
  "update_ancestors f [] t = t"
| "update_ancestors f (i # p) (Node c ts) =
     (if i < length ts then Node (f c) (ts[i := update_ancestors f p (ts ! i)]) else Node c ts)"

text \<open>
  \<^verbatim>\<open>TContainer::Subtree()\<close>: the containers of the subtree in DFS post-order, children
  first and in the order of \<^verbatim>\<open>Children\<close>, the container itself last. The pointers are
  relative to the container; \<open>Subtree t p\<close> are the pointers from the root.
\<close>

fun subtree_ptrs :: "ctree \<Rightarrow> ptr list"
  and subtrees_ptrs :: "nat \<Rightarrow> ctree list \<Rightarrow> ptr list" where
  "subtree_ptrs (Node c ts) = subtrees_ptrs 0 ts @ [[]]"
| "subtrees_ptrs i [] = []"
| "subtrees_ptrs i (t # ts) = map ((#) i) (subtree_ptrs t) @ subtrees_ptrs (Suc i) ts"

definition Subtree :: "ctree \<Rightarrow> ptr \<Rightarrow> ptr list" where
  "Subtree t p = (case lookup t p of None \<Rightarrow> [] | Some n \<Rightarrow> map ((@) p) (subtree_ptrs n))"

section \<open>Subtree locks\<close>

text \<open>
  One pass of the \<^verbatim>\<open>while (1)\<close> loop of \<^verbatim>\<open>TContainer::Lock\<close>, which runs under
  \<^verbatim>\<open>ContainersMutex\<close>. \<open>Lock_busy\<close> is the value of \<^verbatim>\<open>busy\<close> after the loop over the
  \<^verbatim>\<open>Parent\<close> chain, which stops at the first container that makes it true.
\<close>

fun Lock_busy_loop :: "bool \<Rightarrow> bool \<Rightarrow> container list \<Rightarrow> bool" where
  "Lock_busy_loop for_read busy [] = busy"
| "Lock_busy_loop for_read busy (ct # cts) =
     (if busy then busy
      else Lock_busy_loop for_read
             (PendingWrite ct \<or> (if for_read then Locked ct < 0 else Locked ct \<noteq> 0)) cts)"

definition Lock_busy :: "bool \<Rightarrow> container \<Rightarrow> container list \<Rightarrow> bool" where
  "Lock_busy for_read x ancs =
     Lock_busy_loop for_read
       (if for_read then Locked x < 0 \<or> PendingWrite x \<or> SubtreeWrite x \<noteq> 0
        else Locked x \<noteq> 0 \<or> SubtreeRead x \<noteq> 0 \<or> SubtreeWrite x \<noteq> 0)
       ancs"

text \<open>
  The outcomes of one pass: the call returns (with \<^verbatim>\<open>OK\<close> when the lock is taken), or
  the thread goes to sleep in \<^verbatim>\<open>ContainersCV.wait\<close> and runs the pass again when it is
  woken. \<open>tid\<close> is the result of \<^verbatim>\<open>GetTid()\<close>.
\<close>

datatype lock_outcome = LockReturn TError ctree | LockWait ctree

definition Lock :: "int \<Rightarrow> bool \<Rightarrow> bool \<Rightarrow> ptr \<Rightarrow> ctree \<Rightarrow> lock_outcome" where
  "Lock tid for_read try_lock p t =
     (case get_ct t p of
        None \<Rightarrow> LockReturn (mkError ContainerDoesNotExist ''Container was destroyed'') t
      | Some x \<Rightarrow>
          if State x = Destroyed then
            LockReturn (mkError ContainerDoesNotExist ''Container was destroyed'') t
          else if Lock_busy for_read x (ancestors t p) then
            (if try_lock then LockReturn (mkError Busy (''Container is busy: '' @ Name x)) t
             else if \<not> for_read then LockWait (update (\<lambda>c. c\<lparr>PendingWrite := True\<rparr>) p t)
             else LockWait t)
          else
            LockReturn OK
              (update_ancestors
                 (\<lambda>ct. if for_read then ct\<lparr>SubtreeRead := SubtreeRead ct + 1\<rparr>
                       else ct\<lparr>SubtreeWrite := SubtreeWrite ct + 1\<rparr>) p
                 (update (\<lambda>c. c\<lparr>PendingWrite := False,
                                 Locked := Locked c + (if for_read then 1 else - 1),
                                 LastOwner := tid\<rparr>) p t)))"

text \<open>
  \<^verbatim>\<open>DowngradeLock\<close> and the first half of \<^verbatim>\<open>UpgradeLock\<close> (up to the wait for
  \<^verbatim>\<open>Locked == 1\<close>; with no other reader the wait is over at once and the second half
  follows).
\<close>

definition DowngradeLock :: "ptr \<Rightarrow> ctree \<Rightarrow> ctree" where
  "DowngradeLock p t =
     update (\<lambda>c. c\<lparr>Locked := 1\<rparr>) p
       (update_ancestors
          (\<lambda>ct. ct\<lparr>SubtreeRead := SubtreeRead ct + 1, SubtreeWrite := SubtreeWrite ct - 1\<rparr>) p t)"

definition UpgradeLock :: "int \<Rightarrow> ptr \<Rightarrow> ctree \<Rightarrow> ctree" where
  "UpgradeLock tid p t =
     update (\<lambda>c. c\<lparr>Locked := - 1, LastOwner := tid, PendingWrite := False\<rparr>) p
       (update_ancestors
          (\<lambda>ct. ct\<lparr>SubtreeRead := SubtreeRead ct - 1, SubtreeWrite := SubtreeWrite ct + 1\<rparr>) p
          (update (\<lambda>c. c\<lparr>PendingWrite := True\<rparr>) p t))"

section \<open>State transitions\<close>

definition NotifyWaiters :: "container \<Rightarrow> container" where
  "NotifyWaiters c = c\<lparr>Notified := Suc (Notified c)\<rparr>"

text \<open>The bodies of the two loops over the \<^verbatim>\<open>Parent\<close> chain in \<^verbatim>\<open>TContainer::SetState\<close>.\<close>

definition bump_starting :: "EContainerState \<Rightarrow> container \<Rightarrow> container" where
  "bump_starting next p =
     p\<lparr>StartingChildren := StartingChildren p + (if next = Starting then 1 else - 1)\<rparr>"

definition bump_running :: "EContainerState \<Rightarrow> container \<Rightarrow> container" where
  "bump_running next p =
     (let p' = p\<lparr>RunningChildren := RunningChildren p + (if next = Running then 1 else - 1)\<rparr>
      in if RunningChildren p' = 0 \<and> State p' = Meta then NotifyWaiters p' else p')"

definition SetState :: "ptr \<Rightarrow> EContainerState \<Rightarrow> ctree \<Rightarrow> ctree" where
  "SetState p next t =
     (case get_ct t p of
        None \<Rightarrow> t
      | Some x \<Rightarrow>
          if State x = next then t
          else
            let prev = State x;
                t1 = update (\<lambda>c. c\<lparr>State := next\<rparr>) p t;
                t2 = (if prev = Starting \<or> next = Starting
                      then update_ancestors (bump_starting next) p t1 else t1);
                t3 = (if prev = Running \<or> next = Running
                      then update_ancestors (bump_running next) p t2 else t2)
            in if next \<noteq> Running \<and> next \<noteq> Meta \<and> next \<noteq> Starting \<and> next \<noteq> Stopping
               then update NotifyWaiters p t3 else t3)"

text \<open>
  What the counters are compared with: \<open>count_state s t\<close> is the number of containers in
  state \<open>s\<close> strictly below the root of \<open>t\<close> (its descendants), and
  \<open>children_in_state s t\<close> the number of those among its children.
\<close>

fun count_state :: "EContainerState \<Rightarrow> ctree \<Rightarrow> int" where
  "count_state s (Node c ts) =
     sum_list (map (\<lambda>t. (if State (node_ct t) = s then 1 else 0) + count_state s t) ts)"

definition children_in_state :: "EContainerState \<Rightarrow> ctree \<Rightarrow> int" where
  "children_in_state s t = int (length (filter (\<lambda>n. State (node_ct n) = s) (Children t)))"

fun counters_ok :: "ctree \<Rightarrow> bool" where
  "counters_ok (Node c ts) =
     (StartingChildren c = count_state Starting (Node c ts) \<and>
      RunningChildren c = count_state Running (Node c ts) \<and>
      list_all counters_ok ts)"

section \<open>Memory guarantees\<close>

text \<open>
  \<^verbatim>\<open>GetTotalMemGuarantee\<close> in \<^verbatim>\<open>uint64_t\<close> arithmetic, and \<^verbatim>\<open>CheckMemGuarantee\<close>
  applied to the root container. \<open>host_total\<close> is \<^verbatim>\<open>GetTotalMemory()\<close> and \<open>reserve\<close> the
  configured \<^verbatim>\<open>memory_guarantee_reserve\<close>.
\<close>

fun GetTotalMemGuarantee :: "ctree \<Rightarrow> 64 word" where
  "GetTotalMemGuarantee (Node c ts) =
     (if State c = Stopped then 0
      else max (NewMemGuarantee c)
               (foldl (\<lambda>sum child. sum + GetTotalMemGuarantee child) 0 ts))"

definition CheckMemGuarantee :: "64 word \<Rightarrow> 64 word \<Rightarrow> ctree \<Rightarrow> TError" where
  "CheckMemGuarantee host_total reserve root =
     (let usage = GetTotalMemGuarantee root in
      if usage + reserve > host_total then
        mkError ResourceNotAvailable
          (''Memory guarantee overcommit by '' @ to_string (unat (usage + reserve - host_total)) @
           '' bytes'')
      else OK)"

text \<open>
  The roll-up in the words of the specification, over the natural numbers: a stopped
  container contributes nothing, every other one the maximum of its own guarantee and
  the sum of the totals of its children.
\<close>

fun spec_total_guarantee :: "ctree \<Rightarrow> nat" where
  "spec_total_guarantee (Node c ts) =
     (if State c = Stopped then 0
      else max (unat (NewMemGuarantee c)) (sum_list (map spec_total_guarantee ts)))"


section \<open>Property bits and the property registry\<close>

text \<open>
  Modelled from the spec: container.hpp, which declares the accessors of the bitmaps
  \<^verbatim>\<open>PropSet\<close> (was the property set?) and \<^verbatim>\<open>PropDirty\<close> (does it need to be applied
  again?), is not among the sources. Setting or clearing a property marks it dirty;
  \<^verbatim>\<open>TestClearPropDirty\<close> reports the dirty bit and clears it.
\<close>

definition HasProp :: "container \<Rightarrow> EProperty \<Rightarrow> bool" where
  "HasProp c prop = (prop \<in> PropSet c)"

definition SetProp :: "EProperty \<Rightarrow> container \<Rightarrow> container" where
  "SetProp prop c = c\<lparr>PropSet := insert prop (PropSet c), PropDirty := insert prop (PropDirty c)\<rparr>"

definition ClearProp :: "EProperty \<Rightarrow> container \<Rightarrow> container" where
  "ClearProp prop c = c\<lparr>PropSet := PropSet c - {prop}, PropDirty := insert prop (PropDirty c)\<rparr>"

definition TestPropDirty :: "container \<Rightarrow> EProperty \<Rightarrow> bool" where
  "TestPropDirty c prop = (prop \<in> PropDirty c)"

definition TestClearPropDirty :: "EProperty \<Rightarrow> container \<Rightarrow> bool \<times> container" where
  "TestClearPropDirty prop c = (prop \<in> PropDirty c, c\<lparr>PropDirty := PropDirty c - {prop}\<rparr>)"

text \<open>
  Modelled from the spec: \<^verbatim>\<open>HasResources()\<close> is declared in container.hpp. A container
  has live resources unless it is stopped or dead, the condition under which
  \<^verbatim>\<open>TContainer::Restore\<close> restores cgroups.
\<close>

definition HasResources :: "container \<Rightarrow> bool" where
  "HasResources c = (State c \<noteq> Stopped \<and> State c \<noteq> Dead)"

text \<open>
  An entry of the registry \<^verbatim>\<open>ContainerProperties\<close>. The registry itself (property.cpp)
  is not among the sources, so the functions below take it as a parameter: the list of
  the entries with their names, in the order of the map. In the source the methods of
  an entry act on the current container \<^verbatim>\<open>CT\<close>; here they take it as an argument and
  return it.
\<close>

record property =
  Prop :: EProperty
  RequireControllers :: "controller set"
  CanSet :: "container \<Rightarrow> TError"
  Get :: "container \<Rightarrow> TError \<times> string"
  Set :: "string \<Rightarrow> container \<Rightarrow> TError \<times> container"
  SetIndexed :: "string \<Rightarrow> string \<Rightarrow> container \<Rightarrow> TError \<times> container"

type_synonym registry = "(string \<times> property) list"

text \<open>
  The initial values that the constructor of \<^verbatim>\<open>TContainer\<close> gives to the members
  above, for a container below the first level on a host without the cpuacct
  controller; members that the constructor does not assign start from zero.
\<close>

definition TContainer_new :: "nat \<Rightarrow> string \<Rightarrow> container" where
  "TContainer_new idn name =
     \<lparr>Id_no = idn, Name = name, State = Stopped, IsMeta = True, Isolate = True, Hostname = [],
      Controllers = {CGROUP_FREEZER}, RequiredControllers = {CGROUP_FREEZER},
      PropSet = {PORTO_NAMESPACE, CONTROLLERS, ENABLE_PORTO},
      PropDirty = {PORTO_NAMESPACE, CONTROLLERS, ENABLE_PORTO},
      Locked = 0, PendingWrite = False, SubtreeRead = 0, SubtreeWrite = 0, LastOwner = 0,
      StartingChildren = 0, RunningChildren = 0, Notified = 0,
      MemLimit = 0, NewMemGuarantee = 0,
      CpuSetType = Inherit, CpuSetArg = 0, CpuAffinity = {}, CpuVacant = {}, CpuReserve = {},
      CpuGuarantee = 0, CpuGuaranteeSum = 0,
      TaskPid = 0, TaskVPid = 0, WaitTaskPid = 0, SeizeTaskPid = 0,
      StartTime = 0, DeathTime = 0, ExitStatus = 0, OomEvents = 0, OomKilled = False,
      SelfFreezing = False\<rparr>"

section \<open>The daemon state and its collaborators\<close>

text \<open>
  Besides the container tree the functions below act on the key-value store (one node
  per container id, a map from keys to values) and on the kernel and the other
  collaborators of the container engine. Calls that only act on a collaborator are
  recorded in a trace; what a collaborator answers is read from an oracle \<open>env\<close>.
\<close>

datatype event =
    EvKill int
  | EvTerminate nat "64 word"
  | EvFreeze nat
  | EvThaw nat
  | EvFreeResources nat

type_synonym kv_node = "string \<Rightarrow> string option"

record world =
  Tree :: ctree
  KV :: "nat \<Rightarrow> kv_node option"
  Trace :: "event list"

datatype kernel_op =
    K_MemGuarantee | K_MemLimit | K_AnonLimit | K_DirtyLimit | K_RechargeOnPgfault
  | K_SoftLimit | K_IoLimit | K_IoOpsLimit | K_IoWeight | K_IoPolicy | K_HugetlbLimit
  | K_CpuGuarantee | K_CpuLimit | K_SchedPolicy | K_DistributeCpus | K_NetClasses
  | K_Ulimits | K_ThreadLimit | K_ResolvConf | K_DeviceConf

record env =
  caller_tid :: int
  now_ms :: "64 word"
  locked_container :: ptr
  kv_save :: "nat \<Rightarrow> TError"
  freezer_freeze :: "nat \<Rightarrow> TError"
  freezer_thaw :: "nat \<Rightarrow> TError"
  kill_tasks :: "nat \<Rightarrow> TError"
  kernel_write :: "nat \<Rightarrow> kernel_op \<Rightarrow> TError"
  string_trim :: "string \<Rightarrow> string"
  format_error :: "TError \<Rightarrow> string"
  lock_container :: "ptr \<Rightarrow> TError"
  prepare_start :: "nat \<Rightarrow> TError"
  distribute_cpus :: TError
  host_memory :: "64 word"
  memory_guarantee_reserve :: "64 word"
  create_work_dir :: "nat \<Rightarrow> TError"
  prepare_cgroups :: "nat \<Rightarrow> TError"
  mount_volumes :: "nat \<Rightarrow> TError"
  start_network :: "nat \<Rightarrow> TError"
  open_namespaces :: "nat \<Rightarrow> TError"
  prepare_task :: "nat \<Rightarrow> TError"
  no_new_namespace :: "nat \<Rightarrow> bool"
  task_start :: "nat \<Rightarrow> TError"
  task_pid :: "nat \<Rightarrow> int"
  oom_event_fd :: "nat \<Rightarrow> int"
  oom_event_read :: "nat \<Rightarrow> 64 word option"

definition set_ct :: "(container \<Rightarrow> container) \<Rightarrow> ptr \<Rightarrow> world \<Rightarrow> world" where
  "set_ct f p w = w\<lparr>Tree := update f p (Tree w)\<rparr>"

definition emit :: "event \<Rightarrow> world \<Rightarrow> world" where
  "emit e w = w\<lparr>Trace := Trace w @ [e]\<rparr>"

text \<open>
  The kernel's \<^verbatim>\<open>freezer.parent_freezing\<close>, what \<^verbatim>\<open>IsParentFreezing\<close> reads: some
  cgroup above is frozen by itself.
\<close>

definition IsParentFreezing :: "ctree \<Rightarrow> ptr \<Rightarrow> bool" where
  "IsParentFreezing t p = list_ex SelfFreezing (ancestors t p)"

section \<open>Persisting a container\<close>

text \<open>
  \<^verbatim>\<open>TContainer::Save\<close>: the node \<^verbatim>\<open>ContainersKV / Id\<close> receives the id and the name and
  then the value of every property that is set; a getter that fails ends the function
  with its error before anything is written.
\<close>

fun Save_knobs :: "registry \<Rightarrow> container \<Rightarrow> kv_node \<Rightarrow> TError \<times> kv_node" where
  "Save_knobs [] c node = (OK, node)"
| "Save_knobs ((name, knob) # knobs) c node =
     (if Prop knob = NONE \<or> \<not> HasProp c (Prop knob) then Save_knobs knobs c node
      else if failed (fst (Get knob c)) then (fst (Get knob c), node)
      else Save_knobs knobs c (node(name \<mapsto> snd (Get knob c))))"

definition Save :: "env \<Rightarrow> registry \<Rightarrow> ptr \<Rightarrow> world \<Rightarrow> TError \<times> world" where
  "Save e props p w =
     (case get_ct (Tree w) p of
        None \<Rightarrow> (OK, w)
      | Some c \<Rightarrow>
          let r = Save_knobs props c
                    [''id'' \<mapsto> to_string (Id_no c), ''name'' \<mapsto> Name c]
          in if failed (fst r) then (fst r, w)
             else if failed (kv_save e (Id_no c)) then (kv_save e (Id_no c), w)
             else (OK, w\<lparr>KV := (KV w)(Id_no c \<mapsto> snd r)\<rparr>))"


section \<open>Stop\<close>

definition ForgetPid :: "container \<Rightarrow> container" where
  "ForgetPid c =
     ClearProp SEIZE_PID
       ((ClearProp ROOT_PID (c\<lparr>TaskPid := 0, TaskVPid := 0, WaitTaskPid := 0\<rparr>))
          \<lparr>SeizeTaskPid := 0\<rparr>)"

text \<open>
  \<^verbatim>\<open>TContainer::Terminate\<close>: the two checks on the container itself, then the signals
  and the waiting, which act on the kernel only: they are the event \<open>EvTerminate\<close>, and
  \<open>kill_tasks\<close> is the error they end with.
\<close>

definition Terminate :: "env \<Rightarrow> 64 word \<Rightarrow> ptr \<Rightarrow> world \<Rightarrow> TError \<times> world" where
  "Terminate e deadline p w =
     (case get_ct (Tree w) p of
        None \<Rightarrow> (OK, w)
      | Some c \<Rightarrow>
          if p = [] then (mkError Permission ''Cannot terminate root container'', w)
          else if CGROUP_FREEZER \<notin> Controllers c then
            (if TaskPid c \<noteq> 0 then mkError NotSupported ''Cannot terminate without freezer''
             else OK, w)
          else (kill_tasks e (Id_no c), emit (EvTerminate (Id_no c) deadline) w))"

text \<open>
  \<^verbatim>\<open>TContainer::FreeResources\<close> releases what the container holds in the kernel and on
  disk (cgroups, volume links, the working directory, the OOM monitor).
\<close>

definition FreeResources :: "ptr \<Rightarrow> world \<Rightarrow> world" where
  "FreeResources p w =
     (case get_ct (Tree w) p of None \<Rightarrow> w | Some c \<Rightarrow> emit (EvFreeResources (Id_no c)) w)"

text \<open>\<^verbatim>\<open>FreezerSubsystem.Thaw(cg, false)\<close> where the error is at most logged.\<close>

definition Thaw_quiet :: "env \<Rightarrow> ptr \<Rightarrow> world \<Rightarrow> world" where
  "Thaw_quiet e p w =
     (case get_ct (Tree w) p of
        None \<Rightarrow> w
      | Some c \<Rightarrow>
          if failed (freezer_thaw e (Id_no c)) then w
          else emit (EvThaw (Id_no c)) (set_ct (\<lambda>c. c\<lparr>SelfFreezing := False\<rparr>) p w))"

text \<open>The three loops of \<^verbatim>\<open>TContainer::Stop\<close> over the subtree.\<close>

fun Stop_spree :: "ptr list \<Rightarrow> world \<Rightarrow> world" where
  "Stop_spree [] w = w"
| "Stop_spree (q # qs) w =
     Stop_spree qs
       (case get_ct (Tree w) q of
          None \<Rightarrow> w
        | Some c \<Rightarrow> if Isolate c \<and> WaitTaskPid c \<noteq> 0 then emit (EvKill (WaitTaskPid c)) w else w)"

definition Stop_terminate_one :: "env \<Rightarrow> 64 word \<Rightarrow> ptr \<Rightarrow> world \<Rightarrow> world" where
  "Stop_terminate_one e deadline q w =
     (case get_ct (Tree w) q of
        None \<Rightarrow> w
      | Some c \<Rightarrow>
          if q = [] \<or> State c = Stopped then w
          else
            let w1 = snd (Terminate e deadline q (w\<lparr>Tree := SetState q Stopping (Tree w)\<rparr>))
            in if SelfFreezing c then Thaw_quiet e q w1 else w1)"

fun Stop_terminate :: "env \<Rightarrow> 64 word \<Rightarrow> ptr list \<Rightarrow> world \<Rightarrow> world" where
  "Stop_terminate e deadline [] w = w"
| "Stop_terminate e deadline (q # qs) w =
     Stop_terminate e deadline qs (Stop_terminate_one e deadline q w)"

definition Stop_clear :: "container \<Rightarrow> container" where
  "Stop_clear c =
     ClearProp OOM_KILLED
       ((ClearProp EXIT_STATUS
          ((ClearProp DEATH_TIME ((ForgetPid c)\<lparr>DeathTime := 0\<rparr>))\<lparr>ExitStatus := 0\<rparr>))
        \<lparr>OomEvents := 0, OomKilled := False\<rparr>)"

text \<open>
  The last loop. \<open>p\<close> is the container on which \<^verbatim>\<open>Stop\<close> was called and \<open>q\<close> the
  container \<^verbatim>\<open>ct\<close> of the iteration; the loop ends with \<^verbatim>\<open>error = Save()\<close>, a call
  on \<^verbatim>\<open>this\<close>.
\<close>

fun Stop_finish :: "env \<Rightarrow> registry \<Rightarrow> ptr \<Rightarrow> ptr list \<Rightarrow> world \<Rightarrow> TError \<times> world" where
  "Stop_finish e props p [] w = (OK, w)"
| "Stop_finish e props p (q # qs) w =
     (case get_ct (Tree w) q of
        None \<Rightarrow> Stop_finish e props p qs w
      | Some c \<Rightarrow>
          if State c = Stopped then Stop_finish e props p qs w
          else
            let w1 = FreeResources q (set_ct Stop_clear q w);
                w2 = w1\<lparr>Tree := SetState q Stopped (Tree w1)\<rparr>;
                r = Save e props p w2
            in if failed (fst r) then r else Stop_finish e props p qs (snd r))"

definition Stop :: "env \<Rightarrow> registry \<Rightarrow> 64 word \<Rightarrow> ptr \<Rightarrow> world \<Rightarrow> TError \<times> world" where
  "Stop e props timeout p w =
     (case get_ct (Tree w) p of
        None \<Rightarrow> (OK, w)
      | Some c \<Rightarrow>
          let deadline = (if timeout \<noteq> 0 then now_ms e + timeout else 0) in
          if State c = Stopped then (OK, w)
          else if CGROUP_FREEZER \<notin> Controllers c \<and> TaskPid c \<noteq> 0 then
            (mkError NotSupported ''Cannot stop without freezer'', w)
          else if CGROUP_FREEZER \<in> Controllers c \<and> IsParentFreezing (Tree w) p then
            (mkError InvalidState ''Parent container is paused'', w)
          else
            let subtree = Subtree (Tree w) p;
                w1 = (if timeout \<noteq> 0
                      then w\<lparr>Tree := DowngradeLock (locked_container e) (Tree w)\<rparr> else w);
                w2 = (if timeout = 0 then Stop_spree (rev subtree) w1 else w1);
                w3 = Stop_terminate e deadline subtree w2;
                w4 = (if timeout \<noteq> 0
                      then w3\<lparr>Tree := UpgradeLock (caller_tid e) (locked_container e) (Tree w3)\<rparr>
                      else w3)
            in Stop_finish e props p subtree w4)"

section \<open>Pause and Resume\<close>

text \<open>
  \<^verbatim>\<open>FreezerSubsystem.Freeze\<close> and \<^verbatim>\<open>Thaw\<close> write the freezer state of the cgroup of
  the container; when they succeed the cgroup is, or is no longer, frozen by itself.
  In the loop of \<^verbatim>\<open>Resume\<close> the new state is \<^verbatim>\<open>IsMeta() ? Meta : Running\<close>, a call on
  \<^verbatim>\<open>this\<close>, the container at \<open>p\<close>.
\<close>

fun Pause_subtree :: "env \<Rightarrow> registry \<Rightarrow> ptr list \<Rightarrow> world \<Rightarrow> world" where
  "Pause_subtree e props [] w = w"
| "Pause_subtree e props (q # qs) w =
     Pause_subtree e props qs
       (case get_ct (Tree w) q of
          None \<Rightarrow> w
        | Some c \<Rightarrow>
            if State c = Running \<or> State c = Meta
            then snd (Save e props q (w\<lparr>Tree := SetState q Paused (Tree w)\<rparr>))
            else w)"

definition Pause :: "env \<Rightarrow> registry \<Rightarrow> ptr \<Rightarrow> world \<Rightarrow> TError \<times> world" where
  "Pause e props p w =
     (case get_ct (Tree w) p of
        None \<Rightarrow> (OK, w)
      | Some c \<Rightarrow>
          if State c \<noteq> Running \<and> State c \<noteq> Meta then
            (mkError InvalidState ''Contaner not running'', w)
          else if CGROUP_FREEZER \<notin> Controllers c then
            (mkError NotSupported ''Cannot pause without freezer'', w)
          else if failed (freezer_freeze e (Id_no c)) then (freezer_freeze e (Id_no c), w)
          else
            (OK, Pause_subtree e props (Subtree (Tree w) p)
                   (emit (EvFreeze (Id_no c)) (set_ct (\<lambda>c. c\<lparr>SelfFreezing := True\<rparr>) p w))))"

definition Resume_one :: "env \<Rightarrow> registry \<Rightarrow> ptr \<Rightarrow> ptr \<Rightarrow> world \<Rightarrow> world" where
  "Resume_one e props p q w =
     (case (get_ct (Tree w) p, get_ct (Tree w) q) of
        (Some this, Some c) \<Rightarrow>
          let w1 = (if SelfFreezing c then Thaw_quiet e q w else w);
              w2 = (if State c = Paused
                    then w1\<lparr>Tree := SetState q (if IsMeta this then Meta else Running) (Tree w1)\<rparr>
                    else w1)
          in snd (Save e props q w2)
      | _ \<Rightarrow> w)"

fun Resume_subtree :: "env \<Rightarrow> registry \<Rightarrow> ptr \<Rightarrow> ptr list \<Rightarrow> world \<Rightarrow> world" where
  "Resume_subtree e props p [] w = w"
| "Resume_subtree e props p (q # qs) w = Resume_subtree e props p qs (Resume_one e props p q w)"

definition Resume :: "env \<Rightarrow> registry \<Rightarrow> ptr \<Rightarrow> world \<Rightarrow> TError \<times> world" where
  "Resume e props p w =
     (case get_ct (Tree w) p of
        None \<Rightarrow> (OK, w)
      | Some c \<Rightarrow>
          if CGROUP_FREEZER \<notin> Controllers c then
            (mkError NotSupported ''Cannot resume without freezer'', w)
          else if IsParentFreezing (Tree w) p then
            (mkError InvalidState ''Parent container is paused'', w)
          else if \<not> SelfFreezing c then (mkError InvalidState ''Container not paused'', w)
          else if failed (freezer_thaw e (Id_no c)) then (freezer_thaw e (Id_no c), w)
          else
            (OK, Resume_subtree e props p (Subtree (Tree w) p)
                   (emit (EvThaw (Id_no c)) (set_ct (\<lambda>c. c\<lparr>SelfFreezing := False\<rparr>) p w))))"


section \<open>Applying dirty properties\<close>

definition test_clear :: "EProperty \<Rightarrow> ptr \<Rightarrow> world \<Rightarrow> bool \<times> world" where
  "test_clear prop p w =
     (case get_ct (Tree w) p of
        None \<Rightarrow> (False, w)
      | Some c \<Rightarrow> (fst (TestClearPropDirty prop c),
                   set_ct (\<lambda>c. snd (TestClearPropDirty prop c)) p w))"

definition test_dirty :: "EProperty \<Rightarrow> ptr \<Rightarrow> world \<Rightarrow> bool" where
  "test_dirty prop p w = (case get_ct (Tree w) p of None \<Rightarrow> False | Some c \<Rightarrow> TestPropDirty c prop)"

definition has_controller :: "controller \<Rightarrow> ptr \<Rightarrow> world \<Rightarrow> bool" where
  "has_controller k p w = (case get_ct (Tree w) p of None \<Rightarrow> False | Some c \<Rightarrow> k \<in> Controllers c)"

text \<open>
  A write to the kernel (a cgroup knob, the scheduler, the network classes, a file of
  the container) on behalf of the container at \<open>p\<close>; the oracle \<open>kernel_write\<close> tells
  whether it fails.
\<close>

definition kwrite :: "env \<Rightarrow> kernel_op \<Rightarrow> ptr \<Rightarrow> world \<Rightarrow> TError" where
  "kwrite e op p w = (case get_ct (Tree w) p of None \<Rightarrow> OK | Some c \<Rightarrow> kernel_write e (Id_no c) op)"

text \<open>
  The steps of \<^verbatim>\<open>TContainer::ApplyDynamicProperties\<close>, in the order of the source. A
  step of the form \<^verbatim>\<open>if (TestClearPropDirty(P)) { error = write; if (error) return error; }\<close>
  is \<open>apply_simple\<close>. The cases that only choose the log level of a failed write
  are left out, since the error is returned in each of them, and so is
  \<^verbatim>\<open>PropagateCpuLimit()\<close>, which assigns to \<^verbatim>\<open>CpuLimitSum\<close> only. The steps for the CPU
  guarantee and for the CPU set are the writes that may fail: what
  \<^verbatim>\<open>ApplyCpuGuarantee\<close> and \<^verbatim>\<open>Parent->DistributeCpus()\<close> assign in the containers
  (\<^verbatim>\<open>CpuGuaranteeSum\<close>, the CPU sets) is not followed here, and no result below depends
  on it.
\<close>

definition apply_simple :: "env \<Rightarrow> EProperty \<Rightarrow> kernel_op \<Rightarrow> ptr \<Rightarrow> world \<Rightarrow> TError \<times> world" where
  "apply_simple e prop op p w =
     (let r = test_clear prop p w in
      if fst r then (kwrite e op p (snd r), snd r) else (OK, snd r))"

definition EBUSY :: int where "EBUSY = 16"

definition apply_mem_limit :: "env \<Rightarrow> ptr \<Rightarrow> world \<Rightarrow> TError \<times> world" where
  "apply_mem_limit e p w =
     (let r = test_clear MEM_LIMIT p w; err = kwrite e K_MemLimit p (snd r) in
      if fst r \<and> failed err then
        (if Errno err = EBUSY then
           (mkError InvalidValue
              (''Limit is too low: '' @
               to_string (case get_ct (Tree w) p of None \<Rightarrow> 0 | Some c \<Rightarrow> unat (MemLimit c))),
            snd r)
         else (err, snd r))
      else (OK, snd r))"

definition apply_io_weight :: "env \<Rightarrow> ptr \<Rightarrow> world \<Rightarrow> TError \<times> world" where
  "apply_io_weight e p w =
     (let r = test_clear IO_WEIGHT p w in
      if (fst r \<or> test_dirty IO_POLICY p (snd r)) \<and> has_controller CGROUP_BLKIO p (snd r)
      then (kwrite e K_IoWeight p (snd r), snd r) else (OK, snd r))"

definition apply_cpu_guarantee :: "env \<Rightarrow> ptr \<Rightarrow> world \<Rightarrow> TError \<times> world" where
  "apply_cpu_guarantee e p w =
     (if has_controller CGROUP_CPU p w then
        (let r = test_clear CPU_GUARANTEE p w in
         if test_dirty CPU_PERIOD p w \<or> fst r then (kwrite e K_CpuGuarantee p (snd r), snd r)
         else (OK, snd r))
      else (OK, w))"

definition apply_cpu_limit :: "env \<Rightarrow> ptr \<Rightarrow> world \<Rightarrow> TError \<times> world" where
  "apply_cpu_limit e p w =
     (if has_controller CGROUP_CPU p w then
        (let r1 = test_clear CPU_LIMIT p w; r2 = test_clear CPU_PERIOD p (snd r1) in
         if test_dirty CPU_POLICY p w \<or> test_dirty CPU_WEIGHT p w \<or> fst r1 \<or> fst r2
         then (kwrite e K_CpuLimit p (snd r2), snd r2) else (OK, snd r2))
      else (OK, w))"

definition apply_sched_policy :: "env \<Rightarrow> ptr \<Rightarrow> world \<Rightarrow> TError \<times> world" where
  "apply_sched_policy e p w =
     (let r1 = test_clear CPU_POLICY p w in
      if fst r1 then (kwrite e K_SchedPolicy p (snd r1), snd r1)
      else
        (let r2 = test_clear CPU_WEIGHT p (snd r1) in
         if fst r2 then (kwrite e K_SchedPolicy p (snd r2), snd r2) else (OK, snd r2)))"

definition apply_cpu_set :: "env \<Rightarrow> ptr \<Rightarrow> world \<Rightarrow> TError \<times> world" where
  "apply_cpu_set e p w =
     (let r = test_clear CPU_SET p w in
      if fst r \<and> p \<noteq> [] then (kwrite e K_DistributeCpus (butlast p) (snd r), snd r)
      else (OK, snd r))"

definition apply_net :: "env \<Rightarrow> ptr \<Rightarrow> world \<Rightarrow> TError \<times> world" where
  "apply_net e p w =
     (let r1 = test_clear NET_PRIO p w;
          r2 = test_clear NET_LIMIT p (snd r1);
          r3 = test_clear NET_GUARANTEE p (snd r2);
          r4 = test_clear NET_RX_LIMIT p (snd r3)
      in if fst r1 \<or> fst r2 \<or> fst r3 \<or> fst r4 then (kwrite e K_NetClasses p (snd r4), snd r4)
         else (OK, snd r4))"

fun run_steps :: "(world \<Rightarrow> TError \<times> world) list \<Rightarrow> world \<Rightarrow> TError \<times> world" where
  "run_steps [] w = (OK, w)"
| "run_steps (f # fs) w = (if failed (fst (f w)) then f w else run_steps fs (snd (f w)))"

definition ApplyDynamicProperties :: "env \<Rightarrow> ptr \<Rightarrow> world \<Rightarrow> TError \<times> world" where
  "ApplyDynamicProperties e p =
     run_steps
       [apply_simple e MEM_GUARANTEE K_MemGuarantee p,
        apply_mem_limit e p,
        apply_simple e ANON_LIMIT K_AnonLimit p,
        apply_simple e DIRTY_LIMIT K_DirtyLimit p,
        apply_simple e RECHARGE_ON_PGFAULT K_RechargeOnPgfault p,
        apply_simple e PRESSURIZE_ON_DEATH K_SoftLimit p,
        apply_simple e IO_LIMIT K_IoLimit p,
        apply_simple e IO_OPS_LIMIT K_IoOpsLimit p,
        apply_io_weight e p,
        apply_simple e IO_POLICY K_IoPolicy p,
        apply_simple e HUGETLB_LIMIT K_HugetlbLimit p,
        apply_cpu_guarantee e p,
        apply_cpu_limit e p,
        apply_sched_policy e p,
        apply_cpu_set e p,
        apply_net e p,
        apply_simple e ULIMIT K_Ulimits p,
        apply_simple e THREAD_LIMIT K_ThreadLimit p,
        apply_simple e RESOLV_CONF K_ResolvConf p,
        apply_simple e DEVICE_CONF K_DeviceConf p]"

section \<open>SetProperty\<close>

text \<open>
  \<^verbatim>\<open>ParsePropertyName\<close>: a name that ends with \<^verbatim>\<open>]\<close> and contains \<^verbatim>\<open>[\<close> is split
  into the name before the first \<^verbatim>\<open>[\<close> and the index between the brackets. The
  result is the returned flag, the name and the index.
\<close>

definition ParsePropertyName :: "string \<Rightarrow> bool \<times> string \<times> string" where
  "ParsePropertyName name =
     (if name \<noteq> [] \<and> last name = CHR 0x5D \<and> CHR 0x5B \<in> set name then
        (let lb = length (takeWhile (\<lambda>c. c \<noteq> CHR 0x5B) name)
         in (True, take lb name, butlast (drop (lb + 1) name)))
      else (False, name, []))"

definition EnableControllers :: "controller set \<Rightarrow> container \<Rightarrow> TError \<times> container" where
  "EnableControllers controllers c =
     (if State c = Stopped then
        (OK, c\<lparr>Controllers := Controllers c \<union> controllers,
                RequiredControllers := RequiredControllers c \<union> controllers\<rparr>)
      else if \<not> controllers \<subseteq> Controllers c then
        (mkError NotSupported ''Cannot enable controllers in runtime'', c)
      else (OK, c))"

text \<open>
  The part of \<^verbatim>\<open>SetProperty\<close> from \<^verbatim>\<open>prop->CanSet()\<close> to the call of the setter: the
  error so far, the old value read by the getter, and the container as the calls left
  it.
\<close>

definition SetProperty_set ::
    "property \<Rightarrow> string \<Rightarrow> string \<Rightarrow> container \<Rightarrow> TError \<times> string \<times> container" where
  "SetProperty_set prop idx val c =
     (let r1 = (if \<not> failed (CanSet prop c) \<and> RequireControllers prop \<noteq> {}
                then EnableControllers (RequireControllers prop) c else (CanSet prop c, c));
          old = (if \<not> failed (fst r1) then Get prop (snd r1) else (fst r1, []));
          r2 = (if \<not> failed (fst old)
                then (if idx \<noteq> [] then SetIndexed prop idx val (snd r1) else Set prop val (snd r1))
                else (fst old, snd r1))
      in (fst r2, snd old, snd r2))"

text \<open>The rewind after a failed \<^verbatim>\<open>ApplyDynamicProperties\<close>.\<close>

definition SetProperty_rewind :: "property \<Rightarrow> string \<Rightarrow> container \<Rightarrow> container" where
  "SetProperty_rewind prop oldValue c =
     snd (TestClearPropDirty (Prop prop) (snd (Set prop oldValue c)))"

definition SetProperty ::
    "env \<Rightarrow> registry \<Rightarrow> string \<Rightarrow> string \<Rightarrow> ptr \<Rightarrow> world \<Rightarrow> TError \<times> world" where
  "SetProperty e props origProperty origValue p w =
     (if p = [] then (mkError Permission ''System containers are read only'', w)
      else
        case get_ct (Tree w) p of
          None \<Rightarrow> (OK, w)
        | Some c \<Rightarrow>
            let parsed = ParsePropertyName origProperty;
                property = fst (snd parsed);
                idx = snd (snd parsed)
            in if fst parsed \<and> idx = [] then (mkError InvalidProperty ''Empty property index'', w)
               else
                 case map_of props property of
                   None \<Rightarrow> (mkError InvalidProperty (''Invalid property '' @ property), w)
                 | Some prop \<Rightarrow>
                     let r = SetProperty_set prop idx (string_trim e origValue) c;
                         w1 = set_ct (\<lambda>_. snd (snd r)) p w
                     in if failed (fst r) then (fst r, w1)
                        else if HasResources (snd (snd r)) then
                          (let a = ApplyDynamicProperties e p w1 in
                           if failed (fst a)
                           then (fst a, set_ct (SetProperty_rewind prop (fst (snd r))) p (snd a))
                           else Save e props p (snd a))
                        else Save e props p w1)"

section \<open>Start\<close>

text \<open>
  \<^verbatim>\<open>RecvOomEvents\<close>: the read of the OOM eventfd of the container. \<open>oom_event_fd\<close> is
  the descriptor and \<open>oom_event_read\<close> the counter that was read, when the read
  returned eight bytes.
\<close>

definition RecvOomEvents :: "env \<Rightarrow> ptr \<Rightarrow> world \<Rightarrow> bool \<times> world" where
  "RecvOomEvents e p w =
     (case get_ct (Tree w) p of
        None \<Rightarrow> (False, w)
      | Some c \<Rightarrow>
          (case oom_event_read e (Id_no c) of
             None \<Rightarrow> (False, w)
           | Some v \<Rightarrow>
               if 0 \<le> oom_event_fd e (Id_no c) \<and> v \<noteq> 0
               then (True, set_ct (\<lambda>c. c\<lparr>OomEvents := OomEvents c + v\<rparr>) p w)
               else (False, w)))"

text \<open>
  \<^verbatim>\<open>TContainer::StartTask\<close>. The network, the namespaces, the preparation of the task
  environment and the launcher \<^verbatim>\<open>TaskEnv.Start()\<close> are collaborators; \<open>no_new_namespace\<close>
  is \<^verbatim>\<open>NetInherit && !TaskEnv.NewMountNs\<close>, and on success the launcher reports the pid
  of the task. \<open>StartTask_dirty\<close> is the copy of \<^verbatim>\<open>PropSet\<close> to \<^verbatim>\<open>PropDirty\<close> and the
  two calls of \<^verbatim>\<open>TestClearPropDirty\<close> that follow it.
\<close>

definition StartTask_dirty :: "ptr \<Rightarrow> world \<Rightarrow> world" where
  "StartTask_dirty p w =
     set_ct (\<lambda>c. snd (TestClearPropDirty DEVICE_CONF
                      (snd (TestClearPropDirty RESOLV_CONF (c\<lparr>PropDirty := PropSet c\<rparr>))))) p w"

definition StartTask :: "env \<Rightarrow> ptr \<Rightarrow> world \<Rightarrow> TError \<times> world" where
  "StartTask e p w =
     (case get_ct (Tree w) p of
        None \<Rightarrow> (OK, w)
      | Some c \<Rightarrow>
          if failed (start_network e (Id_no c)) then (start_network e (Id_no c), w)
          else if p = [] then (OK, w)
          else
            let a = ApplyDynamicProperties e p (StartTask_dirty p w)
            in if failed (fst a) then a
               else if failed (open_namespaces e (Id_no c)) then (open_namespaces e (Id_no c), snd a)
               else if failed (prepare_task e (Id_no c)) then (prepare_task e (Id_no c), snd a)
               else if IsMeta c \<and> \<not> Isolate c \<and> no_new_namespace e (Id_no c) then (OK, snd a)
               else if failed (task_start e (Id_no c)) then
                 (let r = RecvOomEvents e p (snd a) in
                  if fst r then
                    (mkError ResourceNotAvailable
                       (''OOM at container '' @ Name c @ '' start: '' @
                        format_error e (task_start e (Id_no c))), snd r)
                  else (task_start e (Id_no c), snd r))
               else
                 (OK, set_ct (\<lambda>c. c\<lparr>TaskPid := task_pid e (Id_no c),
                                     WaitTaskPid := task_pid e (Id_no c)\<rparr>) p (snd a)))"

text \<open>
  \<^verbatim>\<open>TContainer::PrepareResources\<close>. The distribution of CPUs for the root container,
  the working directory, the cgroups and the volumes are collaborators; the check of the
  memory guarantees is \<open>CheckMemGuarantee\<close> on the root of the tree.
\<close>

definition PrepareResources :: "env \<Rightarrow> ptr \<Rightarrow> world \<Rightarrow> TError \<times> world" where
  "PrepareResources e p w =
     (case get_ct (Tree w) p of
        None \<Rightarrow> (OK, w)
      | Some c \<Rightarrow>
          if p = [] \<and> failed (distribute_cpus e) then (distribute_cpus e, w)
          else if failed (CheckMemGuarantee (host_memory e) (memory_guarantee_reserve e) (Tree w))
          then (CheckMemGuarantee (host_memory e) (memory_guarantee_reserve e) (Tree w), w)
          else if failed (create_work_dir e (Id_no c)) then (create_work_dir e (Id_no c), w)
          else if failed (prepare_cgroups e (Id_no c))
          then (prepare_cgroups e (Id_no c), FreeResources p w)
          else if failed (mount_volumes e (Id_no c))
          then (mount_volumes e (Id_no c), FreeResources p w)
          else (OK, w))"

text \<open>
  \<^verbatim>\<open>TContainer::Reap\<close>, without the rotation of the logs and the scheduling of a
  respawn.
\<close>

definition Reap :: "env \<Rightarrow> registry \<Rightarrow> bool \<Rightarrow> ptr \<Rightarrow> world \<Rightarrow> world" where
  "Reap e props oomKilled p w =
     (let w1 = snd (Terminate e 0 p w);
          w2 = set_ct (\<lambda>c. ForgetPid
                       ((if oomKilled then SetProp OOM_KILLED ((SetProp DEATH_TIME
                              (c\<lparr>DeathTime := now_ms e\<rparr>))\<lparr>OomKilled := True\<rparr>)
                         else SetProp DEATH_TIME (c\<lparr>DeathTime := now_ms e\<rparr>)))) p w1;
          w3 = w2\<lparr>Tree := SetState p Dead (Tree w2)\<rparr>
      in snd (Save e props p w3))"

text \<open>
  \<^verbatim>\<open>TContainer::Start\<close> after \<^verbatim>\<open>StartParents\<close>. \<open>prepare_start\<close> is the result of
  \<^verbatim>\<open>PrepareStart\<close>, whose checks are about credentials, capabilities and places.
  \<open>Start_begin\<close> is the daemon state when \<^verbatim>\<open>PrepareResources\<close> is called, after the
  transition to \<open>Starting\<close>, and \<open>Start_prepared\<close> the state when \<^verbatim>\<open>StartTask\<close> is
  called, after \<^verbatim>\<open>DowngradeLock\<close>.
\<close>

definition Start_begin :: "env \<Rightarrow> ptr \<Rightarrow> world \<Rightarrow> world" where
  "Start_begin e p w =
     set_ct (\<lambda>c. SetProp START_TIME (c\<lparr>StartTime := now_ms e\<rparr>)) p
       (w\<lparr>Tree := SetState p Starting (Tree w)\<rparr>)"

definition Start_prepared :: "env \<Rightarrow> ptr \<Rightarrow> world \<Rightarrow> world" where
  "Start_prepared e p w =
     (snd (PrepareResources e p (Start_begin e p w)))
       \<lparr>Tree := DowngradeLock (locked_container e)
                 (Tree (snd (PrepareResources e p (Start_begin e p w))))\<rparr>"

definition Start_body :: "env \<Rightarrow> registry \<Rightarrow> ptr \<Rightarrow> world \<Rightarrow> TError \<times> world" where
  "Start_body e props p w =
     (case get_ct (Tree w) p of
        None \<Rightarrow> (OK, w)
      | Some c \<Rightarrow>
          if failed (prepare_start e (Id_no c)) then
            (wrapError (prepare_start e (Id_no c))
               (''Cannot prepare start for container '' @ Name c), w)
          else
            let r = PrepareResources e p (Start_begin e p w)
            in if failed (fst r)
               then (fst r, (snd r)\<lparr>Tree := SetState p Stopped (Tree (snd r))\<rparr>)
               else
                 let t = StartTask e p (Start_prepared e p w);
                     w3 = (snd t)\<lparr>Tree := UpgradeLock (caller_tid e) (locked_container e) (Tree (snd t))\<rparr>
                 in if failed (fst t) then
                      (let w4 = snd (Terminate e 0 p (w3\<lparr>Tree := SetState p Stopping (Tree w3)\<rparr>));
                           w5 = FreeResources p w4
                       in (fst t, w5\<lparr>Tree := SetState p Stopped (Tree w5)\<rparr>))
                    else
                      (let w4 = set_ct (SetProp ROOT_PID) p
                                  (w3\<lparr>Tree := SetState p (if IsMeta c then Meta else Running)
                                                  (Tree w3)\<rparr>);
                           s = Save e props p w4
                       in if failed (fst s) then (fst s, Reap e props False p (snd s)) else s))"

text \<open>
  The kernel's freezer state \<^verbatim>\<open>FROZEN\<close>, what \<^verbatim>\<open>IsFrozen\<close> reads: the cgroup is frozen
  by itself or by a cgroup above.
\<close>

definition IsFrozen :: "ctree \<Rightarrow> ptr \<Rightarrow> bool" where
  "IsFrozen t p =
     (case get_ct t p of None \<Rightarrow> False | Some c \<Rightarrow> SelfFreezing c \<or> IsParentFreezing t p)"

text \<open>
  \<^verbatim>\<open>TContainer::Start\<close> and \<^verbatim>\<open>TContainer::StartParents\<close>. When the parent is neither
  running nor meta, the loop of \<^verbatim>\<open>StartParents\<close> climbs from the parent to the topmost
  container whose parent is neither running nor meta, locks it and starts it, and
  repeats until it has started the parent. A container that was started is running or
  meta, so the targets are the containers of that chain, the topmost first:
  \<open>StartParents_loop e props q\<close> first deals with the chain above \<open>q\<close> and then locks and
  starts \<open>q\<close>. \<open>lock_container\<close> is the result of \<^verbatim>\<open>CL->LockContainer(target)\<close>.
\<close>

definition parent_idle :: "ctree \<Rightarrow> ptr \<Rightarrow> bool" where
  "parent_idle t q =
     (q \<noteq> [] \<and>
      (case get_ct t (butlast q) of
         None \<Rightarrow> False
       | Some parent \<Rightarrow> State parent \<noteq> Running \<and> State parent \<noteq> Meta))"

function Start :: "env \<Rightarrow> registry \<Rightarrow> ptr \<Rightarrow> world \<Rightarrow> TError \<times> world"
  and StartParents :: "env \<Rightarrow> registry \<Rightarrow> ptr \<Rightarrow> world \<Rightarrow> TError \<times> world"
  and StartParents_loop :: "env \<Rightarrow> registry \<Rightarrow> ptr \<Rightarrow> world \<Rightarrow> TError \<times> world" where
  "Start e props p w =
     (case get_ct (Tree w) p of
        None \<Rightarrow> (OK, w)
      | Some c \<Rightarrow>
          if State c \<noteq> Stopped then
            (mkError InvalidState
               (''Cannot start container '' @ Name c @ '' in state '' @ StateName (State c)), w)
          else
            (let r = StartParents e props p w in
             if failed (fst r) then r else Start_body e props p (snd r)))"
| "StartParents e props p w =
     (if p = [] then (OK, w)
      else if IsFrozen (Tree w) (butlast p) then
        (mkError InvalidState ''Parent container is frozen'', w)
      else if \<not> parent_idle (Tree w) p then (OK, w)
      else StartParents_loop e props (butlast p) w)"
| "StartParents_loop e props q w =
     (let r = (if parent_idle (Tree w) q then StartParents_loop e props (butlast q) w
               else (OK, w))
      in if failed (fst r) then r
         else if failed (lock_container e q) then (lock_container e q, snd r)
         else Start e props q (snd r))"
  by pat_completeness auto
termination
proof -
  have shorter: "p \<noteq> [] \<Longrightarrow> Suc (Suc (3 * (length p - Suc 0))) < 3 * length p" for p :: ptr
    by (cases p) auto
  show ?thesis
    by (relation "measure (\<lambda>x. case x of
                    Inl (e, props, p, w) \<Rightarrow> 3 * length p + 1
                  | Inr (Inl (e, props, p, w)) \<Rightarrow> 3 * length p
                  | Inr (Inr (e, props, q, w)) \<Rightarrow> 3 * length q + 2)")
       (auto simp: parent_idle_def shorter)
qed

declare Start.simps [simp del] StartParents.simps [simp del] StartParents_loop.simps [simp del]


section \<open>Distribution of CPUs\<close>

text \<open>
  The CPU topology that \<^verbatim>\<open>DistributeCpus\<close> reads from sysfs for the root container
  and keeps in \<^verbatim>\<open>CoreThreads\<close>, \<^verbatim>\<open>NumaNodes\<close> and \<^verbatim>\<open>NodeThreads\<close>; \<open>sysfs_read\<close> is
  the first error of the reads. \<^verbatim>\<open>TBitMap\<close> is declared in a header that is not among
  the sources: a bitmap is the set of its set bits, \<^verbatim>\<open>Weight()\<close> is the number of
  elements, and \<^verbatim>\<open>Size()\<close> is one more than the highest set bit, so that a loop over
  \<^verbatim>\<open>cpu < Size()\<close> that skips the clear bits visits the set bits in increasing order.
\<close>

record topology =
  online :: "nat set"
  CoreThreads :: "nat \<Rightarrow> nat set"
  NumaNodes :: "nat set"
  NodeThreads :: "nat \<Rightarrow> nat set"
  sysfs_read :: TError

definition bm_Size :: "nat set \<Rightarrow> nat" where
  "bm_Size b = (if b = {} then 0 else Suc (Max b))"

text \<open>
  Modelled from the spec: \<^verbatim>\<open>CPU_POWER_PER_SEC\<close> is declared in a header that is not
  among the sources. The guarantees are compared with the number of vacant CPUs times
  one second of CPU time, in nanoseconds (\<^verbatim>\<open>NSEC_PER_SEC\<close> of common.hpp).
\<close>

definition CPU_POWER_PER_SEC :: "64 word" where
  "CPU_POWER_PER_SEC = 1000000000"

text \<open>
  \<^verbatim>\<open>TContainer::ReserveCpus\<close>. The state of the loop: the two counters, the flag
  \<^verbatim>\<open>try_thread\<close>, the bitmaps \<^verbatim>\<open>threads\<close> and \<^verbatim>\<open>cores\<close>, \<^verbatim>\<open>CpuVacant\<close> of the
  container, and whether the \<^verbatim>\<open>break\<close> was taken. The counters are \<^verbatim>\<open>unsigned\<close>; every
  decrement follows a test that the counter is not zero or, for \<^verbatim>\<open>nr_threads\<close> in the
  second pass, the test \<^verbatim>\<open>try_thread && nr_threads\<close> before the \<^verbatim>\<open>goto\<close>.
\<close>

record reserve_state =
  nr_threads :: nat
  nr_cores :: nat
  try_thread :: bool
  threads :: "nat set"
  cores :: "nat set"
  vacant :: "nat set"
  stop :: bool

definition ReserveCpus_step :: "topology \<Rightarrow> reserve_state \<Rightarrow> nat \<Rightarrow> reserve_state" where
  "ReserveCpus_step topo st cpu =
     (if stop st \<or> cpu \<notin> vacant st then st
      else
        let st1 =
          (if CoreThreads topo cpu \<subseteq> vacant st then
             (if nr_cores st \<noteq> 0 then
                st\<lparr>nr_cores := nr_cores st - 1, cores := insert cpu (cores st),
                   threads := threads st \<union> CoreThreads topo cpu,
                   vacant := vacant st - CoreThreads topo cpu\<rparr>
              else if \<not> try_thread st then
                st\<lparr>nr_threads := nr_threads st - 1, threads := insert cpu (threads st),
                   vacant := vacant st - {cpu}, try_thread := True\<rparr>
              else st)
           else if nr_threads st \<noteq> 0 then
             st\<lparr>nr_threads := nr_threads st - 1, threads := insert cpu (threads st),
                vacant := vacant st - {cpu}\<rparr>
           else st)
        in if nr_threads st1 = 0 \<and> nr_cores st1 = 0 then st1\<lparr>stop := True\<rparr> else st1)"

definition ReserveCpus_pass :: "topology \<Rightarrow> reserve_state \<Rightarrow> reserve_state" where
  "ReserveCpus_pass topo st =
     (foldl (ReserveCpus_step topo) st [0..<bm_Size (vacant st)])\<lparr>stop := False\<rparr>"

lemma ReserveCpus_step_mono:
  "nr_threads (ReserveCpus_step topo st cpu) \<le> nr_threads st \<and>
   (try_thread st \<longrightarrow> try_thread (ReserveCpus_step topo st cpu)) \<and>
   (\<not> try_thread st \<and> try_thread (ReserveCpus_step topo st cpu) \<longrightarrow>
      nr_threads (ReserveCpus_step topo st cpu) < nr_threads st \<or>
      nr_threads (ReserveCpus_step topo st cpu) = 0)"
  by (auto simp: ReserveCpus_step_def Let_def)

lemma ReserveCpus_fold_mono:
  "nr_threads (foldl (ReserveCpus_step topo) st cpus) \<le> nr_threads st \<and>
   (try_thread st \<longrightarrow> try_thread (foldl (ReserveCpus_step topo) st cpus)) \<and>
   (\<not> try_thread st \<and> try_thread (foldl (ReserveCpus_step topo) st cpus) \<longrightarrow>
      nr_threads (foldl (ReserveCpus_step topo) st cpus) < nr_threads st \<or>
      nr_threads (foldl (ReserveCpus_step topo) st cpus) = 0)"
proof (induction cpus arbitrary: st)
  case Nil
  show ?case by simp
next
  case (Cons cpu cpus)
  show ?case
    using Cons.IH[of "ReserveCpus_step topo st cpu"] ReserveCpus_step_mono[of topo st cpu]
    by (cases "try_thread (ReserveCpus_step topo st cpu)") auto
qed

lemma ReserveCpus_pass_mono:
  "nr_threads (ReserveCpus_pass topo st) \<le> nr_threads st \<and>
   (\<not> try_thread st \<and> try_thread (ReserveCpus_pass topo st) \<longrightarrow>
      nr_threads (ReserveCpus_pass topo st) < nr_threads st \<or>
      nr_threads (ReserveCpus_pass topo st) = 0)"
  using ReserveCpus_fold_mono[of topo st "[0..<bm_Size (vacant st)]"]
  by (simp add: ReserveCpus_pass_def)

text \<open>The label \<^verbatim>\<open>again\<close>: the pass is repeated with \<^verbatim>\<open>try_thread = false\<close>.\<close>

function ReserveCpus_again :: "topology \<Rightarrow> reserve_state \<Rightarrow> reserve_state" where
  "ReserveCpus_again topo st =
     (if try_thread (ReserveCpus_pass topo st) \<and> nr_threads (ReserveCpus_pass topo st) \<noteq> 0
      then ReserveCpus_again topo ((ReserveCpus_pass topo st)\<lparr>try_thread := False\<rparr>)
      else ReserveCpus_pass topo st)"
  by pat_completeness auto
termination
proof (relation "measure (\<lambda>(topo, st). 2 * nr_threads st + (if try_thread st then 1 else 0))")
  show "wf (measure (\<lambda>(topo, st). 2 * nr_threads st + (if try_thread st then 1 else 0)))"
    by simp
next
  fix topo :: topology and st :: reserve_state
  assume "try_thread (ReserveCpus_pass topo st) \<and> nr_threads (ReserveCpus_pass topo st) \<noteq> 0"
  then show "((topo, (ReserveCpus_pass topo st)\<lparr>try_thread := False\<rparr>), (topo, st))
             \<in> measure (\<lambda>(topo, st). 2 * nr_threads st + (if try_thread st then 1 else 0))"
    using ReserveCpus_pass_mono[of topo st] by auto
qed

declare ReserveCpus_again.simps [simp del]

text \<open>
  The result of \<^verbatim>\<open>ReserveCpus\<close>: the error, the container with its new \<^verbatim>\<open>CpuVacant\<close>,
  and the bitmaps \<^verbatim>\<open>threads\<close> and \<^verbatim>\<open>cores\<close>.
\<close>

definition ReserveCpus ::
    "topology \<Rightarrow> bool \<Rightarrow> nat \<Rightarrow> nat \<Rightarrow> container \<Rightarrow> TError \<times> container \<times> nat set \<times> nat set" where
  "ReserveCpus topo is_root n_threads n_cores c =
     (let st = ReserveCpus_again topo
                 \<lparr>nr_threads = n_threads, nr_cores = n_cores, try_thread = True,
                  threads = {}, cores = {}, vacant = CpuVacant c, stop = False\<rparr>
      in if nr_threads st \<noteq> 0 \<or> nr_cores st \<noteq> 0 \<or> (is_root \<and> card (vacant st) = 0) then
           (mkError ResourceNotAvailable
              (''Not enough cpus in CT'' @ to_string (Id_no c) @ '':'' @ Name c),
            c\<lparr>CpuVacant := vacant st \<union> threads st\<rparr>, {}, {})
         else (OK, c\<lparr>CpuVacant := vacant st\<rparr>, threads st, cores st))"

text \<open>
  One iteration of the loop over the children of a parent in \<^verbatim>\<open>DistributeCpus\<close>, for
  the child \<open>ct\<close> and the type \<open>type\<close> of the outer loop. The state of the loops is the
  error, the parent, the child and \<^verbatim>\<open>vacantGuarantee\<close>. \<open>place_finish\<close> is the part
  after the \<^verbatim>\<open>switch\<close>.
\<close>

type_synonym place_result = "TError \<times> container \<times> container \<times> 64 word"

definition place_finish :: "container \<Rightarrow> container \<Rightarrow> nat set \<Rightarrow> 64 word \<Rightarrow> place_result" where
  "place_finish parent ct affinity vg =
     (if card affinity = 0 \<or> \<not> affinity \<subseteq> CpuAffinity parent then
        (mkError ResourceNotAvailable
           (''Not enough cpus for CT'' @ to_string (Id_no ct) @ '':'' @ Name ct), parent, ct, vg)
      else
        let ct1 = (if CpuAffinity ct \<noteq> affinity
                   then SetProp CPU_SET_AFFINITY (ct\<lparr>CpuAffinity := affinity\<rparr>) else ct);
            vg1 = (if card (CpuReserve ct1) \<noteq> 0 then vg
                   else vg + max (CpuGuarantee ct1) (CpuGuaranteeSum ct1))
        in (OK, parent, ct1\<lparr>CpuVacant := CpuAffinity ct1\<rparr>, vg1))"

definition place_child ::
    "topology \<Rightarrow> bool \<Rightarrow> ECpuSetType \<Rightarrow> container \<Rightarrow> 64 word \<Rightarrow> container \<Rightarrow> place_result" where
  "place_child topo is_root type parent vg ct0 =
     (if CpuSetType ct0 \<noteq> type \<or> State ct0 = Stopped \<or> State ct0 = Dead then (OK, parent, ct0, vg)
      else
        let ct = ct0\<lparr>CpuVacant := {}, CpuReserve := {}\<rparr> in
        case type of
          Inherit \<Rightarrow> place_finish parent ct (CpuVacant parent) vg
        | Absolute \<Rightarrow> place_finish parent ct (CpuAffinity ct) vg
        | Node_t \<Rightarrow>
            if CpuSetArg ct \<notin> NumaNodes topo then
              (mkError ResourceNotAvailable
                 (''Numa node not found for CT'' @ to_string (Id_no ct) @ '':'' @ Name ct),
               parent, ct, vg)
            else place_finish parent ct (NodeThreads topo (CpuSetArg ct)) vg
        | Cores \<Rightarrow>
            (case ReserveCpus topo is_root 0 (CpuSetArg ct) parent of
               (err, parent1, thr, cor) \<Rightarrow>
                 if failed err then (err, parent1, ct\<lparr>CpuReserve := thr\<rparr>, vg)
                 else place_finish parent1 (ct\<lparr>CpuReserve := thr\<rparr>) cor vg)
        | Threads \<Rightarrow>
            (case ReserveCpus topo is_root (CpuSetArg ct) 0 parent of
               (err, parent1, thr, cor) \<Rightarrow>
                 if failed err then (err, parent1, ct\<lparr>CpuReserve := thr\<rparr>, vg)
                 else place_finish parent1 (ct\<lparr>CpuReserve := thr\<rparr>) (cor \<union> thr) vg)
        | Reserve \<Rightarrow>
            (case ReserveCpus topo is_root (CpuSetArg ct) 0 parent of
               (err, parent1, thr, cor) \<Rightarrow>
                 if failed err then (err, parent1, ct\<lparr>CpuReserve := thr\<rparr>, vg)
                 else place_finish parent1 (ct\<lparr>CpuReserve := thr\<rparr>)
                        (cor \<union> CpuAffinity parent1) vg))"

text \<open>
  The loop \<^verbatim>\<open>for (auto &ct: childs)\<close> for one type, and the loop
  \<^verbatim>\<open>for (auto type: order)\<close> around it. An error ends both; the children placed
  before keep what was assigned to them.
\<close>

type_synonym pass_result = "TError \<times> container \<times> container list \<times> 64 word"

fun place_pass ::
    "topology \<Rightarrow> bool \<Rightarrow> ECpuSetType \<Rightarrow> container \<Rightarrow> 64 word \<Rightarrow> container list \<Rightarrow> pass_result" where
  "place_pass topo is_root type parent vg [] = (OK, parent, [], vg)"
| "place_pass topo is_root type parent vg (ct # cts) =
     (case place_child topo is_root type parent vg ct of
        (err, parent1, ct1, vg1) \<Rightarrow>
          if failed err then (err, parent1, ct1 # cts, vg1)
          else
            (case place_pass topo is_root type parent1 vg1 cts of
               (err2, parent2, cts2, vg2) \<Rightarrow> (err2, parent2, ct1 # cts2, vg2)))"

definition cpu_set_order :: "ECpuSetType list" where
  "cpu_set_order = [Absolute, Node_t, Cores, Threads, Reserve, Inherit]"

fun place_all ::
    "topology \<Rightarrow> bool \<Rightarrow> ECpuSetType list \<Rightarrow> container \<Rightarrow> 64 word \<Rightarrow> container list \<Rightarrow> pass_result" where
  "place_all topo is_root [] parent vg cts = (OK, parent, cts, vg)"
| "place_all topo is_root (type # types) parent vg cts =
     (case place_pass topo is_root type parent vg cts of
        (err, parent1, cts1, vg1) \<Rightarrow>
          if failed err then (err, parent1, cts1, vg1)
          else place_all topo is_root types parent1 vg1 cts1)"

text \<open>
  The test after the loops. The error text names \<^verbatim>\<open>Parent->Name\<close>, the parent of the
  container on which \<^verbatim>\<open>DistributeCpus\<close> was called (not of the container of the
  iteration); \<open>this_parent\<close> is its name, and \<open>None\<close> when that container is the root,
  whose \<^verbatim>\<open>Parent\<close> is null.
\<close>

datatype check_result =
    CheckPass
  | CheckLogged string
  | CheckFailed TError
  | CheckNullDeref

definition guarantee_check :: "string option \<Rightarrow> container \<Rightarrow> 64 word \<Rightarrow> check_result" where
  "guarantee_check this_parent parent vacantGuarantee =
     (if vacantGuarantee > of_nat (card (CpuVacant parent)) * CPU_POWER_PER_SEC then
        (if CpuVacant parent \<noteq> CpuAffinity parent then
           (case this_parent of
              None \<Rightarrow> CheckNullDeref
            | Some name \<Rightarrow>
                CheckFailed (mkError ResourceNotAvailable
                  (''Not enough cpus for cpu_guarantee in CT'' @ to_string (Id_no parent) @
                   '':'' @ name)))
         else CheckLogged (''CPU guarantee overcommit in CT'' @ to_string (Id_no parent) @
                           '':'' @ Name parent))
      else CheckPass)"

text \<open>
  The sum that the specification compares with the vacant CPUs: over the children that
  are neither stopped nor dead and have no reserved CPUs, the maximum of
  \<^verbatim>\<open>CpuGuarantee\<close> and \<^verbatim>\<open>CpuGuaranteeSum\<close>, a sum of natural numbers.
\<close>

definition unreserved :: "container \<Rightarrow> bool" where
  "unreserved ct = (State ct \<noteq> Stopped \<and> State ct \<noteq> Dead \<and> card (CpuReserve ct) = 0)"

definition spec_unreserved_guarantee :: "container list \<Rightarrow> nat" where
  "spec_unreserved_guarantee cts =
     sum_list (map (\<lambda>ct. max (unat (CpuGuarantee ct)) (unat (CpuGuaranteeSum ct)))
                   (filter unreserved cts))"

text \<open>
  The body of the loop \<^verbatim>\<open>for (auto &parent: subtree)\<close> for one parent: the placement
  of its children and the test. The result is the verdict of the test, or the error
  of the placement, with the parent and the children as the loops left them.
\<close>

definition distribute_parent ::
    "topology \<Rightarrow> bool \<Rightarrow> string option \<Rightarrow> container \<Rightarrow> container list
       \<Rightarrow> check_result \<times> container \<times> container list" where
  "distribute_parent topo is_root this_parent parent childs =
     (if State parent = Stopped \<or> State parent = Dead \<or> childs = [] then (CheckPass, parent, childs)
      else
        case place_all topo is_root cpu_set_order parent 0 childs of
          (err, parent1, childs1, vg) \<Rightarrow>
            if failed err then (CheckFailed err, parent1, childs1)
            else (guarantee_check this_parent parent1 vg, parent1, childs1))"

section \<open>Example states\<close>

text \<open>
  The states on which the results below are instantiated: the root container with the
  container \<open>a\<close> and its child \<open>a/b\<close>, all idle.
\<close>

definition idle_root :: container where
  "idle_root = (TContainer_new 1 ''/'')\<lparr>State := Meta\<rparr>"

definition idle_a :: container where
  "idle_a = TContainer_new 2 ''a''"

definition idle_b :: container where
  "idle_b = TContainer_new 3 ''a/b''"

definition idle_tree :: ctree where
  "idle_tree = Node idle_root [Node idle_a [Node idle_b []]]"

text \<open>One reader holds the lock of the root; \<open>a\<close> is idle.\<close>

definition read_locked_tree :: ctree where
  "read_locked_tree = Node (idle_root\<lparr>Locked := 1, LastOwner := 5\<rparr>) [Node idle_a []]"


text \<open>
  A registry with the read-only property \<^verbatim>\<open>state\<close>, and collaborators that all
  succeed: a host with 1 GiB of memory, no reserve, no OOM event pending.
\<close>

definition state_knob :: property where
  "state_knob = \<lparr>Prop = STATE, RequireControllers = {},
     CanSet = (\<lambda>c. mkError InvalidValue ''Read-only value: state''),
     Get = (\<lambda>c. (OK, StateName (State c))),
     Set = (\<lambda>v c. (mkError InvalidValue ''Read-only value: state'', c)),
     SetIndexed = (\<lambda>i v c. (mkError InvalidValue ''Read-only value: state'', c))\<rparr>"

definition ex_props :: registry where
  "ex_props = [(''state'', state_knob)]"

definition ex_env :: env where
  "ex_env = \<lparr>caller_tid = 7, now_ms = 1000, locked_container = [0],
     kv_save = (\<lambda>_. OK), freezer_freeze = (\<lambda>_. OK), freezer_thaw = (\<lambda>_. OK),
     kill_tasks = (\<lambda>_. OK), kernel_write = (\<lambda>_ _. OK), string_trim = (\<lambda>s. s),
     format_error = Text, lock_container = (\<lambda>_. OK), prepare_start = (\<lambda>_. OK),
     distribute_cpus = OK, host_memory = 1073741824, memory_guarantee_reserve = 0,
     create_work_dir = (\<lambda>_. OK), prepare_cgroups = (\<lambda>_. OK), mount_volumes = (\<lambda>_. OK),
     start_network = (\<lambda>_. OK), open_namespaces = (\<lambda>_. OK), prepare_task = (\<lambda>_. OK),
     no_new_namespace = (\<lambda>_. False), task_start = (\<lambda>_. OK), task_pid = (\<lambda>_. 100),
     oom_event_fd = (\<lambda>_. 5), oom_event_read = (\<lambda>_. None)\<rparr>"

text \<open>
  Memory guarantees: \<open>a\<close> runs with a guarantee of 600 MiB and \<open>b\<close>, stopped, asks for
  another 600 MiB. In this state and the next two the caller, thread 7, holds the write
  lock of the container it starts.
\<close>

definition guarantee_root :: container where
  "guarantee_root = (SetProp STATE (TContainer_new 1 ''/''))
                      \<lparr>State := Meta, RunningChildren := 1, SubtreeWrite := 1\<rparr>"

definition guarantee_a :: container where
  "guarantee_a = (SetProp STATE (TContainer_new 2 ''a''))
                   \<lparr>State := Running, IsMeta := False, NewMemGuarantee := 629145600\<rparr>"

definition guarantee_b :: container where
  "guarantee_b = (SetProp STATE (TContainer_new 3 ''b''))
                   \<lparr>IsMeta := False, NewMemGuarantee := 629145600, Locked := - 1, LastOwner := 7\<rparr>"

definition guarantee_world :: world where
  "guarantee_world =
     \<lparr>Tree = Node guarantee_root [Node guarantee_b [], Node guarantee_a []],
      KV = Map.empty, Trace = []\<rparr>"

text \<open>
  The largest guarantee a \<^verbatim>\<open>uint64_t\<close> holds, on a host whose configured reserve is
  one byte.
\<close>

definition overflow_env :: env where
  "overflow_env = ex_env\<lparr>memory_guarantee_reserve := 1\<rparr>"

definition meta_root :: container where
  "meta_root = (SetProp STATE (TContainer_new 1 ''/''))\<lparr>State := Meta, SubtreeWrite := 1\<rparr>"

definition overflow_a :: container where
  "overflow_a = (SetProp STATE (TContainer_new 2 ''a''))
                   \<lparr>IsMeta := False, NewMemGuarantee := 18446744073709551615,
                    Locked := - 1, LastOwner := 7\<rparr>"

definition overflow_world :: world where
  "overflow_world = \<lparr>Tree = Node meta_root [Node overflow_a []], KV = Map.empty, Trace = []\<rparr>"

text \<open>The launcher fails and the OOM eventfd of the container holds one event.\<close>

definition oom_env :: env where
  "oom_env = ex_env\<lparr>task_start := (\<lambda>_. \<lparr>Error = Unknown, Errno = 12, Text = ''fork''\<rparr>),
                    oom_event_read := (\<lambda>_. Some 1)\<rparr>"

definition oom_a :: container where
  "oom_a = (SetProp STATE (TContainer_new 2 ''a''))
              \<lparr>IsMeta := False, Locked := - 1, LastOwner := 7\<rparr>"

definition oom_world :: world where
  "oom_world = \<lparr>Tree = Node meta_root [Node oom_a []], KV = Map.empty, Trace = []\<rparr>"

text \<open>
  The running container \<open>a\<close> with its running child \<open>a/b\<close>, both with a saved record
  that says so.
\<close>

definition family_root :: container where
  "family_root = (SetProp STATE (TContainer_new 1 ''/''))\<lparr>State := Meta, RunningChildren := 2\<rparr>"

definition family_a :: container where
  "family_a = (SetProp STATE (TContainer_new 2 ''a''))
                \<lparr>State := Running, IsMeta := False, RunningChildren := 1\<rparr>"

definition family_b :: container where
  "family_b = (SetProp STATE (TContainer_new 3 ''a/b''))\<lparr>State := Running, IsMeta := False\<rparr>"

definition family_world :: world where
  "family_world =
     \<lparr>Tree = Node family_root [Node family_a [Node family_b []]],
      KV = [2 \<mapsto> [''id'' \<mapsto> ''2'', ''name'' \<mapsto> ''a'', ''state'' \<mapsto> ''running''],
            3 \<mapsto> [''id'' \<mapsto> ''3'', ''name'' \<mapsto> ''a/b'', ''state'' \<mapsto> ''running'']],
      Trace = []\<rparr>"

text \<open>The meta container \<open>a\<close> with the running child \<open>a/b\<close>, which has a task.\<close>

definition group_root :: container where
  "group_root = (SetProp STATE (TContainer_new 1 ''/''))\<lparr>State := Meta, RunningChildren := 1\<rparr>"

definition group_a :: container where
  "group_a = (SetProp STATE (TContainer_new 2 ''a''))\<lparr>State := Meta, RunningChildren := 1\<rparr>"

definition group_b :: container where
  "group_b = (SetProp STATE (TContainer_new 3 ''a/b''))\<lparr>State := Running, IsMeta := False\<rparr>"

definition group_world :: world where
  "group_world =
     \<lparr>Tree = Node group_root [Node group_a [Node group_b []]], KV = Map.empty, Trace = []\<rparr>"

text \<open>
  A registry entry for \<^verbatim>\<open>memory_limit\<close> that reads and writes \<^verbatim>\<open>MemLimit\<close> in decimal,
  a kernel that refuses every write of the limit with \<^verbatim>\<open>EBUSY\<close>, and the running
  container \<open>a\<close> without a limit.
\<close>

fun digits_value :: "nat \<Rightarrow> string \<Rightarrow> nat" where
  "digits_value acc [] = acc"
| "digits_value acc (c # cs) =
     digits_value (10 * acc + length (takeWhile (\<lambda>d. d \<noteq> c) ''0123456789'')) cs"

definition memory_limit_knob :: property where
  "memory_limit_knob = \<lparr>Prop = MEM_LIMIT, RequireControllers = {CGROUP_MEMORY},
     CanSet = (\<lambda>c. OK),
     Get = (\<lambda>c. (OK, to_string (unat (MemLimit c)))),
     Set = (\<lambda>v c. if v \<noteq> [] \<and> list_all (\<lambda>d. d \<in> set ''0123456789'') v
                   then (OK, SetProp MEM_LIMIT (c\<lparr>MemLimit := of_nat (digits_value 0 v)\<rparr>))
                   else (mkError InvalidValue (''Bad value: '' @ v), c)),
     SetIndexed = (\<lambda>i v c. (mkError InvalidValue ''Invalid subscript for property'', c))\<rparr>"

definition limit_props :: registry where
  "limit_props = [(''memory_limit'', memory_limit_knob), (''state'', state_knob)]"

definition limit_env :: env where
  "limit_env = ex_env\<lparr>kernel_write :=
     (\<lambda>idn op. if op = K_MemLimit
                then \<lparr>Error = Unknown, Errno = 16, Text = ''write(memory.limit_in_bytes)''\<rparr>
                else OK)\<rparr>"

definition limit_a :: container where
  "limit_a = (TContainer_new 2 ''a'')
               \<lparr>State := Running, IsMeta := False,
                Controllers := {CGROUP_FREEZER, CGROUP_MEMORY},
                RequiredControllers := {CGROUP_FREEZER, CGROUP_MEMORY},
                PropSet := {MEM_LIMIT}, PropDirty := {}\<rparr>"

definition limit_a_set :: container where
  "limit_a_set = limit_a\<lparr>MemLimit := 4096, PropDirty := {MEM_LIMIT}\<rparr>"

definition limit_a_applied :: container where
  "limit_a_applied = limit_a\<lparr>MemLimit := 4096\<rparr>"

definition limit_world :: world where
  "limit_world = \<lparr>Tree = Node group_root [Node limit_a []], KV = Map.empty, Trace = []\<rparr>"

definition limit_world_applied :: world where
  "limit_world_applied =
     \<lparr>Tree = Node group_root [Node limit_a_applied []], KV = Map.empty, Trace = []\<rparr>"

text \<open>The same container when \<^verbatim>\<open>memory_limit\<close> has never been set.\<close>

definition fresh_a :: container where
  "fresh_a = limit_a\<lparr>PropSet := {}\<rparr>"

definition fresh_world :: world where
  "fresh_world = \<lparr>Tree = Node group_root [Node fresh_a []], KV = Map.empty, Trace = []\<rparr>"

text \<open>
  A host with the two CPUs 0 and 2, one thread per core and one NUMA node. The meta
  container \<open>a\<close> owns both; its child \<open>a/greedy\<close> has a guarantee of three CPUs and its
  child \<open>a/pinned\<close> asks for one reserved thread.
\<close>

definition two_cpus :: topology where
  "two_cpus = \<lparr>online = {0, 2},
     CoreThreads = (\<lambda>cpu. {cpu}),
     NumaNodes = {0}, NodeThreads = (\<lambda>n. {0, 2}), sysfs_read = OK\<rparr>"

definition cpu_parent :: container where
  "cpu_parent = (TContainer_new 2 ''a'')\<lparr>State := Meta, CpuAffinity := {0, 2}, CpuVacant := {0, 2}\<rparr>"

definition cpu_greedy :: container where
  "cpu_greedy = (TContainer_new 3 ''a/greedy'')\<lparr>State := Running, CpuGuarantee := 3000000000\<rparr>"

definition cpu_pinned :: container where
  "cpu_pinned = (TContainer_new 4 ''a/pinned'')\<lparr>State := Running, CpuSetType := Threads, CpuSetArg := 1\<rparr>"

section \<open>Vocabulary of the proofs\<close>

text \<open>
  \<open>update_path g f p\<close> applies \<open>g\<close> to the containers above \<open>p\<close> and \<open>f\<close> to the
  container at \<open>p\<close>; \<open>SetState\<close> is one such pass.
\<close>

fun update_path ::
    "(container \<Rightarrow> container) \<Rightarrow> (container \<Rightarrow> container) \<Rightarrow> ptr \<Rightarrow> ctree \<Rightarrow> ctree" where
  "update_path g f [] (Node c ts) = Node (f c) ts"
| "update_path g f (i # p) (Node c ts) =
     (if i < length ts then Node (g c) (ts[i := update_path g f p (ts ! i)]) else Node c ts)"

text \<open>
  What a child adds to the count of its parent: itself when it is in state \<open>s\<close>, and
  its own descendants in that state. \<open>delta\<close> is the change of the count when one
  container goes from \<open>prev\<close> to \<open>nxt\<close>.
\<close>

definition contribution :: "EContainerState \<Rightarrow> ctree \<Rightarrow> int" where
  "contribution s t = (if State (node_ct t) = s then 1 else 0) + count_state s t"

definition delta :: "EContainerState \<Rightarrow> EContainerState \<Rightarrow> EContainerState \<Rightarrow> int" where
  "delta prev nxt s = (if nxt = s then 1 else 0) - (if prev = s then 1 else 0)"

text \<open>What identifies a container and is never assigned after its creation.\<close>

definition ident :: "container \<Rightarrow> nat \<times> string \<times> bool \<times> bool" where
  "ident c = (Id_no c, Name c, IsMeta c, Isolate c)"

definition keeps_ident :: "(world \<Rightarrow> TError \<times> world) \<Rightarrow> bool" where
  "keeps_ident f = (\<forall>w p. map_option ident (get_ct (Tree (snd (f w))) p) =
                          map_option ident (get_ct (Tree w) p))"

text \<open>
  What a child of type \<open>type\<close> adds to \<^verbatim>\<open>vacantGuarantee\<close> in the pass for that type,
  and what a pass for \<open>type\<close> keeps of a child.
\<close>

definition contrib :: "ECpuSetType \<Rightarrow> container \<Rightarrow> 64 word" where
  "contrib type c = (if CpuSetType c = type \<and> unreserved c
                     then max (CpuGuarantee c) (CpuGuaranteeSum c) else 0)"

definition kept :: "ECpuSetType \<Rightarrow> container \<Rightarrow> container \<Rightarrow> bool" where
  "kept type c c' = (CpuSetType c' = CpuSetType c \<and> (CpuSetType c \<noteq> type \<longrightarrow> c' = c))"

text \<open>The state of a container in the tree, and the state in its saved record.\<close>

definition state_at :: "world \<Rightarrow> ptr \<Rightarrow> EContainerState option" where
  "state_at w p = map_option State (get_ct (Tree w) p)"

definition saved_state :: "world \<Rightarrow> nat \<Rightarrow> string option" where
  "saved_state w idn = Option.bind (KV w idn) (\<lambda>node. node ''state'')"

text \<open>
  The value that the loops over the children leave in the variable \<^verbatim>\<open>vacantGuarantee\<close>,
  a \<^verbatim>\<open>uint64_t\<close>: the same sum with the additions of the machine.
\<close>

definition vacantGuarantee_sum :: "container list \<Rightarrow> 64 word" where
  "vacantGuarantee_sum cts =
     sum_list (map (\<lambda>ct. max (CpuGuarantee ct) (CpuGuaranteeSum ct)) (filter unreserved cts))"

section \<open>Basic facts\<close>

lemma Error_OK [simp]: "Error OK = Success"
  by (simp add: OK_def)

lemma Error_mkError [simp]: "Error (mkError e t) = e"
  by (simp add: mkError_def)

lemma Text_mkError [simp]: "Text (mkError e t) = t"
  by (simp add: mkError_def)

lemma OK_not_failed [simp]: "\<not> failed OK"
  by (simp add: failed_def OK_def)

lemma failed_mkError [simp]: "failed (mkError e t) = (e \<noteq> Success)"
  by (simp add: failed_def mkError_def)

lemma mkError_neq_OK [simp]: "e \<noteq> Success \<Longrightarrow> mkError e t \<noteq> OK"
  by (auto simp: mkError_def OK_def)

section \<open>Name validation: results\<close>

lemma ValidName_component_OK:
  "(ValidName_component name part = OK) =
   (part \<noteq> [] \<and> length part \<le> 128 \<and> part \<noteq> ''self'' \<and> part \<noteq> ''.'')"
  by (auto simp: ValidName_component_def CONTAINER_NAME_MAX_def SELF_CONTAINER_def
      DOT_CONTAINER_def)

lemma ValidName_component_kind:
  "ValidName_component name part = OK \<or> Error (ValidName_component name part) = InvalidValue"
  by (simp add: ValidName_component_def)

lemma ValidName_component_failed:
  "failed (ValidName_component name part) = (ValidName_component name part \<noteq> OK)"
  using ValidName_component_kind[of name part] by (auto simp: failed_def)

lemma ValidName_loop_kind:
  "ValidName_loop name part cs = OK \<or> Error (ValidName_loop name part cs) = InvalidValue"
  by (induction cs arbitrary: part) (auto simp: ValidName_component_kind)

text \<open>Every rejection by \<open>ValidName\<close> has the kind \<open>InvalidValue\<close>.\<close>

lemma ValidName_kind:
  "ValidName name su = OK \<or> Error (ValidName name su) = InvalidValue"
  using ValidName_loop_kind[of name "[]" name] by (auto simp: ValidName_def Let_def)

lemma split_slash_nonempty [simp]: "split_slash cs \<noteq> []"
  by (induction cs) auto

lemma ValidName_component_spec:
  "list_all name_char part \<Longrightarrow> (ValidName_component name part = OK) = spec_component part"
  by (auto simp: ValidName_component_OK spec_component_def)

lemma list_all_hd_tl:
  "xs \<noteq> [] \<Longrightarrow> list_all P xs = (P (hd xs) \<and> list_all P (tl xs))"
  by (cases xs) auto

lemma ValidName_loop_spec:
  "list_all name_char part \<Longrightarrow> CHR 0x00 \<notin> set cs \<Longrightarrow>
   (ValidName_loop name part cs = OK) =
   (spec_component (part @ hd (split_slash cs)) \<and> list_all spec_component (tl (split_slash cs)))"
proof (induction cs arbitrary: part)
  case Nil
  then show ?case by (simp add: ValidName_component_spec)
next
  case (Cons c cs)
  have nul: "c \<noteq> CHR 0x00" using Cons.prems by auto
  show ?case
  proof (cases "c = CHR ''/''")
    case True
    have ih: "(ValidName_loop name [] cs = OK) = list_all spec_component (split_slash cs)"
      using Cons.IH[of "[]"] Cons.prems list_all_hd_tl[of "split_slash cs" spec_component]
      by simp
    show ?thesis using True ih Cons.prems(1)
      by (simp add: ValidName_component_failed ValidName_component_spec)
  next
    case False
    show ?thesis
    proof (cases "name_char c")
      case True
      then show ?thesis using False nul Cons.prems Cons.IH[of "part @ [c]"] by simp
    next
      case no_char: False
      then show ?thesis using False nul by (simp add: spec_component_def)
    qed
  qed
qed

lemma name_char_slash [simp]: "\<not> name_char (CHR ''/'')"
  by (simp add: name_char_def)

text \<open>
  On the strings that contain no \<^verbatim>\<open>'\0'\<close> byte, \<open>ValidName\<close> accepts exactly the names
  of the grammar.
\<close>

lemma ValidName_spec:
  assumes "CHR 0x00 \<notin> set name"
  shows "(ValidName name su = OK) = spec_valid_name name su"
proof (cases name)
  case Nil
  then show ?thesis by (simp add: ValidName_def spec_valid_name_def spec_component_def)
next
  case (Cons c cs)
  have sp: "list_all spec_component (split_slash name) =
        (spec_component (hd (split_slash name)) \<and> list_all spec_component (tl (split_slash name)))"
    by (rule list_all_hd_tl) simp
  show ?thesis
  proof (cases "c = CHR ''/''")
    case True
    then show ?thesis using Cons
      by (auto simp: ValidName_def spec_valid_name_def Let_def ROOT_CONTAINER_def
          spec_component_def CONTAINER_PATH_MAX_def CONTAINER_PATH_MAX_FOR_SUPERUSER_def)
  next
    case False
    then have "name \<noteq> ''/''" using Cons by auto
    then show ?thesis using False Cons ValidName_loop_spec[of "[]" name name] assms sp
      by (auto simp: ValidName_def spec_valid_name_def Let_def
          CONTAINER_PATH_MAX_def CONTAINER_PATH_MAX_FOR_SUPERUSER_def)
  qed
qed

text \<open>
  Claim C6. Name validation accepts exactly the names of the grammar (the root name, or
  a path of valid components within the length limit) and rejects every other string
  with \<open>InvalidValue\<close>. The three-byte string \<^verbatim>\<open>a\0b\<close> is outside the grammar, since
  the byte \<^verbatim>\<open>\0\<close> is not in the charset; \<open>ValidName\<close> accepts it, for a superuser and
  for any other caller, because an embedded \<^verbatim>\<open>'\0'\<close> takes the \<^verbatim>\<open>case\<close> written for the
  terminator.
\<close>

theorem ValidName_embedded_nul:
  "ValidName [CHR ''a'', CHR 0x00, CHR ''b''] False = OK \<and>
   ValidName [CHR ''a'', CHR 0x00, CHR ''b''] True = OK \<and>
   \<not> spec_valid_name [CHR ''a'', CHR 0x00, CHR ''b''] False \<and>
   \<not> spec_valid_name [CHR ''a'', CHR 0x00, CHR ''b''] True"
  by (simp add: ValidName_def Let_def CONTAINER_PATH_MAX_def CONTAINER_PATH_MAX_FOR_SUPERUSER_def
      ValidName_component_def failed_def OK_def name_char_def CONTAINER_NAME_MAX_def
      SELF_CONTAINER_def DOT_CONTAINER_def spec_valid_name_def spec_component_def)

section \<open>Subtree locks: results\<close>

lemma Lock_busy_loop_iff:
  "Lock_busy_loop for_read busy ancs =
     (busy \<or> list_ex (\<lambda>a. PendingWrite a \<or> (if for_read then Locked a < 0 else Locked a \<noteq> 0)) ancs)"
  by (induction ancs arbitrary: busy) auto

lemma Lock_ok_iff:
  "get_ct t p = Some x \<Longrightarrow>
   (\<exists>t'. Lock owner for_read try_lock p t = LockReturn OK t') =
   (State x \<noteq> Destroyed \<and> \<not> Lock_busy for_read x (ancestors t p))"
  by (auto simp: Lock_def)

text \<open>
  Claim C1, amended. For a container \<open>x\<close> that is not destroyed, a read lock is granted
  exactly when \<open>x\<close> is not write-locked, has no pending writer and no subtree writer, and
  no ancestor has a pending writer or is write-locked. A write lock is granted exactly
  when \<open>x\<close> is not locked, has no subtree reader or writer, and no ancestor has a pending
  writer or is locked at all: an ancestor that holds a read lock blocks the write lock.
\<close>

theorem Lock_granted:
  assumes "get_ct t p = Some x"
  shows "((\<exists>t'. Lock owner True try_lock p t = LockReturn OK t') =
          (State x \<noteq> Destroyed \<and> \<not> Locked x < 0 \<and> \<not> PendingWrite x \<and> SubtreeWrite x = 0 \<and>
           (\<forall>a \<in> set (ancestors t p). \<not> PendingWrite a \<and> \<not> Locked a < 0))) \<and>
         ((\<exists>t'. Lock owner False try_lock p t = LockReturn OK t') =
          (State x \<noteq> Destroyed \<and> Locked x = 0 \<and> SubtreeRead x = 0 \<and> SubtreeWrite x = 0 \<and>
           (\<forall>a \<in> set (ancestors t p). \<not> PendingWrite a \<and> Locked a = 0)))"
  unfolding Lock_ok_iff[OF assms] Lock_busy_def Lock_busy_loop_iff list_ex_iff
  by auto

lemma get_idle_a: "get_ct idle_tree [0] = Some idle_a"
  by (simp add: idle_tree_def get_ct_def)

theorem Lock_granted_witness:
  "(\<exists>t'. Lock 7 True True [0] idle_tree = LockReturn OK t') \<and>
   (\<exists>t'. Lock 7 False True [0] idle_tree = LockReturn OK t')"
  using Lock_granted[OF get_idle_a, of 7 True]
  by (simp add: idle_tree_def idle_a_def idle_root_def TContainer_new_def ancestors_def)

text \<open>
  The claim as stated fails: with one reader on the root and nothing else, the
  container \<open>a\<close> is not locked, has no subtree reader or writer, and its only ancestor
  is neither write-locked nor awaited by a writer, yet \<^verbatim>\<open>TryLock\<close> for write returns
  \<open>Busy\<close>.
\<close>

theorem Lock_write_under_reader_counterexample:
  "get_ct read_locked_tree [0] = Some idle_a \<and>
   State idle_a \<noteq> Destroyed \<and> Locked idle_a = 0 \<and> SubtreeRead idle_a = 0 \<and>
   SubtreeWrite idle_a = 0 \<and>
   list_all (\<lambda>a. \<not> Locked a < 0 \<and> \<not> PendingWrite a) (ancestors read_locked_tree [0]) \<and>
   Lock 7 False True [0] read_locked_tree =
     LockReturn (mkError Busy ''Container is busy: a'') read_locked_tree"
  by (simp add: read_locked_tree_def idle_a_def idle_root_def TContainer_new_def ancestors_def
      get_ct_def Lock_def Lock_busy_def)

section \<open>State transitions: results\<close>

lemma update_as_path: "update f p t = update_path id f p t"
  by (induction "id :: container \<Rightarrow> container" f p t rule: update_path.induct) auto

lemma update_ancestors_as_path: "update_ancestors g p t = update_path g id p t"
  by (induction g "id :: container \<Rightarrow> container" p t rule: update_path.induct) auto

lemma update_path_comp:
  "update_path g2 f2 p (update_path g1 f1 p t) = update_path (g2 \<circ> g1) (f2 \<circ> f1) p t"
  by (induction g1 f1 p t rule: update_path.induct) auto

lemma sum_list_map_update:
  fixes f :: "'a \<Rightarrow> int"
  shows "i < length ts \<Longrightarrow>
         sum_list (map f (ts[i := u])) = sum_list (map f ts) - f (ts ! i) + f u"
  by (induction ts arbitrary: i) (auto split: nat.splits)

lemma count_state_Node: "count_state s (Node c ts) = sum_list (map (contribution s) ts)"
  by (simp add: contribution_def [abs_def])

lemma list_all_update: "list_all P ts \<Longrightarrow> P u \<Longrightarrow> list_all P (ts[i := u])"
  by (induction ts arbitrary: i) (auto split: nat.splits)

lemma update_path_counters:
  assumes F: "\<And>c. State (f c) = nxt \<and> StartingChildren (f c) = StartingChildren c \<and>
                  RunningChildren (f c) = RunningChildren c"
      and G: "\<And>c. State (g c) = State c \<and>
                  StartingChildren (g c) = StartingChildren c + delta prev nxt Starting \<and>
                  RunningChildren (g c) = RunningChildren c + delta prev nxt Running"
  shows "lookup t p = Some n \<Longrightarrow> State (node_ct n) = prev \<Longrightarrow> counters_ok t \<Longrightarrow>
         counters_ok (update_path g f p t) \<and>
         (\<forall>s. contribution s (update_path g f p t) = contribution s t + delta prev nxt s)"
proof (induction p arbitrary: t)
  case Nil
  obtain c ts where t: "t = Node c ts" by (cases t) auto
  from Nil have "n = t" by simp
  then show ?case using Nil.prems t F[of c]
    by (simp add: contribution_def delta_def)
next
  case (Cons i p)
  obtain c ts where t: "t = Node c ts" by (cases t) auto
  with Cons.prems have i: "i < length ts" and lk: "lookup (ts ! i) p = Some n"
    by (auto split: if_splits)
  have ok: "list_all counters_ok ts" using Cons.prems t by simp
  then have oki: "counters_ok (ts ! i)" using i by (simp add: list_all_length)
  let ?u = "update_path g f p (ts ! i)"
  from Cons.IH[OF lk Cons.prems(2) oki]
  have u1: "counters_ok ?u"
    and u2: "\<And>s. contribution s ?u = contribution s (ts ! i) + delta prev nxt s"
    by auto
  have cnt: "\<And>s. count_state s (Node (g c) (ts[i := ?u])) =
                  count_state s (Node c ts) + delta prev nxt s"
    using i u2 by (simp only: count_state_Node sum_list_map_update)
  have "counters_ok (Node (g c) (ts[i := ?u]))"
    using G[of c] cnt ok u1 Cons.prems(3) t
    by (simp only: counters_ok.simps) (simp add: list_all_update)
  moreover have "\<And>s. contribution s (Node (g c) (ts[i := ?u])) =
                      contribution s (Node c ts) + delta prev nxt s"
    using cnt G[of c] by (simp add: contribution_def)
  ultimately show ?case using t i by simp
qed

lemma SetState_as_path:
  assumes "get_ct t p = Some x" "State x \<noteq> nxt"
  shows "SetState p nxt t =
         update_path
           ((if State x = Running \<or> nxt = Running then bump_running nxt else id) \<circ>
            (if State x = Starting \<or> nxt = Starting then bump_starting nxt else id))
           ((if nxt \<noteq> Running \<and> nxt \<noteq> Meta \<and> nxt \<noteq> Starting \<and> nxt \<noteq> Stopping
             then NotifyWaiters else id) \<circ> (\<lambda>c. c\<lparr>State := nxt\<rparr>))
           p t"
  using assms
  by (simp add: SetState_def Let_def update_as_path update_ancestors_as_path update_path_comp
      del: comp_apply)

lemma SetState_target_props:
  "State (((if b then NotifyWaiters else id) \<circ> (\<lambda>c. c\<lparr>State := nxt\<rparr>)) c) = nxt \<and>
   StartingChildren (((if b then NotifyWaiters else id) \<circ> (\<lambda>c. c\<lparr>State := nxt\<rparr>)) c) =
     StartingChildren c \<and>
   RunningChildren (((if b then NotifyWaiters else id) \<circ> (\<lambda>c. c\<lparr>State := nxt\<rparr>)) c) =
     RunningChildren c"
  by (simp add: NotifyWaiters_def)

lemma bump_starting_props:
  "State (bump_starting nxt c) = State c \<and>
   StartingChildren (bump_starting nxt c) =
     StartingChildren c + (if nxt = Starting then 1 else - 1) \<and>
   RunningChildren (bump_starting nxt c) = RunningChildren c"
  by (simp add: bump_starting_def)

lemma bump_running_props:
  "State (bump_running nxt c) = State c \<and>
   StartingChildren (bump_running nxt c) = StartingChildren c \<and>
   RunningChildren (bump_running nxt c) =
     RunningChildren c + (if nxt = Running then 1 else - 1)"
  by (simp add: bump_running_def Let_def NotifyWaiters_def)

lemma SetState_ancestor_props:
  assumes "prev \<noteq> nxt"
  shows "State (((if prev = Running \<or> nxt = Running then bump_running nxt else id) \<circ>
                 (if prev = Starting \<or> nxt = Starting then bump_starting nxt else id)) c) =
           State c \<and>
         StartingChildren (((if prev = Running \<or> nxt = Running then bump_running nxt else id) \<circ>
                 (if prev = Starting \<or> nxt = Starting then bump_starting nxt else id)) c) =
           StartingChildren c + delta prev nxt Starting \<and>
         RunningChildren (((if prev = Running \<or> nxt = Running then bump_running nxt else id) \<circ>
                 (if prev = Starting \<or> nxt = Starting then bump_starting nxt else id)) c) =
           RunningChildren c + delta prev nxt Running"
proof -
  have s: "(if prev = Starting \<or> nxt = Starting
            then (if nxt = Starting then 1 else - 1) else (0::int)) = delta prev nxt Starting"
    using assms by (auto simp: delta_def)
  have r: "(if prev = Running \<or> nxt = Running
            then (if nxt = Running then 1 else - 1) else (0::int)) = delta prev nxt Running"
    using assms by (auto simp: delta_def)
  show ?thesis
    unfolding s[symmetric] r[symmetric]
    by (simp add: bump_starting_props bump_running_props)
qed

text \<open>
  Claim C2, amended. When the counters of every container equal the numbers of its
  descendants (children, their children and so on) in state \<open>Starting\<close> and in state
  \<open>Running\<close>, they still do after any state transition of any container; this
  includes every ancestor of that container.
\<close>

theorem SetState_counters:
  assumes "counters_ok t"
  shows "counters_ok (SetState p nxt t)"
proof (cases "get_ct t p")
  case None
  then show ?thesis using assms by (simp add: SetState_def)
next
  case (Some x)
  show ?thesis
  proof (cases "State x = nxt")
    case True
    then show ?thesis using Some assms by (simp add: SetState_def)
  next
    case False
    from Some obtain n where n: "lookup t p = Some n" "State (node_ct n) = State x"
      by (auto simp: get_ct_def)
    show ?thesis
      unfolding SetState_as_path[OF Some False]
      by (rule conjunct1[OF update_path_counters[where prev="State x" and nxt="nxt",
              OF SetState_target_props SetState_ancestor_props[OF False] n assms]])
  qed
qed

lemma idle_counters: "counters_ok idle_tree"
  by (simp add: idle_tree_def idle_root_def idle_a_def idle_b_def TContainer_new_def)

theorem SetState_counters_witness:
  "counters_ok idle_tree \<and> counters_ok (SetState [0, 0] Starting idle_tree)"
  using SetState_counters[OF idle_counters, of "[0, 0]" Starting] idle_counters by simp

text \<open>
  The claim as stated fails for the children: when the grandchild \<open>a/b\<close> of the root
  goes to \<open>Starting\<close>, the counter of the root becomes 1 while none of its children (the
  only one is \<open>a\<close>) is in state \<open>Starting\<close>.
\<close>

theorem SetState_children_counterexample:
  "counters_ok idle_tree \<and>
   StartingChildren (node_ct (SetState [0, 0] Starting idle_tree)) = 1 \<and>
   children_in_state Starting (SetState [0, 0] Starting idle_tree) = 0"
  by (simp add: idle_tree_def idle_root_def idle_a_def idle_b_def TContainer_new_def
      SetState_def get_ct_def bump_starting_def children_in_state_def Let_def)


section \<open>What the operations leave alone\<close>

lemma get_ct_update_path_frame:
  assumes "\<And>c. F (f c) = F c" "\<And>c. F (g c) = F c"
  shows "map_option F (get_ct (update_path g f q t) p) = map_option F (get_ct t p)"
proof (induction q arbitrary: t p)
  case Nil
  obtain c ts where t: "t = Node c ts" by (cases t) auto
  show ?case using assms t by (cases p) (auto simp: get_ct_def)
next
  case (Cons i q)
  obtain c ts where t: "t = Node c ts" by (cases t) auto
  show ?case
  proof (cases p)
    case Nil
    then show ?thesis using assms t by (auto simp: get_ct_def)
  next
    case (Cons j p')
    show ?thesis
    proof (cases "i < length ts \<and> j = i")
      case True
      then show ?thesis using Cons t Cons.IH[of "ts ! i" p'] by (auto simp: get_ct_def)
    next
      case False
      then show ?thesis using Cons t by (auto simp: get_ct_def)
    qed
  qed
qed

lemma get_ct_update_frame:
  assumes "\<And>c. F (f c) = F c"
  shows "map_option F (get_ct (update f q t) p) = map_option F (get_ct t p)"
  unfolding update_as_path by (rule get_ct_update_path_frame) (simp_all add: assms)

lemma get_ct_update_ancestors_frame:
  assumes "\<And>c. F (g c) = F c"
  shows "map_option F (get_ct (update_ancestors g q t) p) = map_option F (get_ct t p)"
  unfolding update_ancestors_as_path by (rule get_ct_update_path_frame) (simp_all add: assms)

lemma ident_simps [simp]:
  "ident (c\<lparr>State := s\<rparr>) = ident c"
  "ident (NotifyWaiters c) = ident c"
  "ident (bump_starting n c) = ident c"
  "ident (bump_running n c) = ident c"
  "ident (SetProp pr c) = ident c"
  "ident (ClearProp pr c) = ident c"
  "ident (snd (TestClearPropDirty pr c)) = ident c"
  "ident (c\<lparr>PropDirty := d\<rparr>) = ident c"
  "ident (c\<lparr>StartTime := st\<rparr>) = ident c"
  "ident (c\<lparr>Locked := l\<rparr>) = ident c"
  "ident (c\<lparr>LastOwner := l\<rparr>) = ident c"
  "ident (c\<lparr>PendingWrite := b\<rparr>) = ident c"
  "ident (c\<lparr>SubtreeRead := l\<rparr>) = ident c"
  "ident (c\<lparr>SubtreeWrite := l\<rparr>) = ident c"
  "ident (c\<lparr>OomEvents := ev\<rparr>) = ident c"
  by (simp_all add: ident_def NotifyWaiters_def bump_starting_def bump_running_def Let_def
      SetProp_def ClearProp_def TestClearPropDirty_def)

lemma ident_SetState:
  "map_option ident (get_ct (SetState q s t) p) = map_option ident (get_ct t p)"
proof (cases "get_ct t q")
  case None
  then show ?thesis by (simp add: SetState_def)
next
  case (Some x)
  show ?thesis
  proof (cases "State x = s")
    case True
    then show ?thesis using Some by (simp add: SetState_def)
  next
    case False
    show ?thesis unfolding SetState_as_path[OF Some False]
      by (rule get_ct_update_path_frame) auto
  qed
qed

lemma ident_DowngradeLock:
  "map_option ident (get_ct (DowngradeLock q t) p) = map_option ident (get_ct t p)"
  unfolding DowngradeLock_def
  by (simp add: get_ct_update_frame[where F=ident] get_ct_update_ancestors_frame[where F=ident])

lemma Tree_emit [simp]: "Tree (emit ev w) = Tree w"
  by (simp add: emit_def)

lemma Tree_set_ct [simp]: "Tree (set_ct f p w) = update f p (Tree w)"
  by (simp add: set_ct_def)

lemma Tree_FreeResources [simp]: "Tree (FreeResources p w) = Tree w"
  by (simp add: FreeResources_def split: option.splits)

lemma Tree_PrepareResources [simp]: "Tree (snd (PrepareResources e p w)) = Tree w"
  by (simp add: PrepareResources_def split: option.splits)

lemma ident_Start_begin:
  "map_option ident (get_ct (Tree (Start_begin e q w)) p) = map_option ident (get_ct (Tree w) p)"
  by (simp add: Start_begin_def get_ct_update_frame[where F=ident] ident_SetState)

lemma ident_Start_prepared:
  "map_option ident (get_ct (Tree (Start_prepared e q w)) p) = map_option ident (get_ct (Tree w) p)"
  by (simp add: Start_prepared_def ident_DowngradeLock ident_Start_begin)

lemma ident_test_clear:
  "map_option ident (get_ct (Tree (snd (test_clear pr q w))) p) = map_option ident (get_ct (Tree w) p)"
  by (simp add: test_clear_def get_ct_update_frame[where F=ident] split: option.splits)

lemma keeps_ident_run_steps:
  "list_all keeps_ident fs \<Longrightarrow> keeps_ident (run_steps fs)"
proof (induction fs)
  case Nil
  then show ?case by (simp add: keeps_ident_def)
next
  case (Cons f fs)
  then have f: "keeps_ident f" and fs: "keeps_ident (run_steps fs)" by auto
  show ?case unfolding keeps_ident_def
  proof (intro allI)
    fix w p
    show "map_option ident (get_ct (Tree (snd (run_steps (f # fs) w))) p) =
          map_option ident (get_ct (Tree w) p)"
      using f fs by (auto simp: keeps_ident_def)
  qed
qed

lemma keeps_ident_steps:
  "keeps_ident (apply_simple e pr op q)"
  "keeps_ident (apply_mem_limit e q)"
  "keeps_ident (apply_io_weight e q)"
  "keeps_ident (apply_cpu_guarantee e q)"
  "keeps_ident (apply_cpu_limit e q)"
  "keeps_ident (apply_sched_policy e q)"
  "keeps_ident (apply_cpu_set e q)"
  "keeps_ident (apply_net e q)"
  by (simp_all add: keeps_ident_def apply_simple_def apply_mem_limit_def apply_io_weight_def
      apply_cpu_guarantee_def apply_cpu_limit_def apply_sched_policy_def apply_cpu_set_def
      apply_net_def Let_def ident_test_clear)

lemma ident_ApplyDynamicProperties:
  "map_option ident (get_ct (Tree (snd (ApplyDynamicProperties e q w))) p) =
   map_option ident (get_ct (Tree w) p)"
proof -
  have "keeps_ident (ApplyDynamicProperties e q)"
    unfolding ApplyDynamicProperties_def
    by (rule keeps_ident_run_steps) (simp add: keeps_ident_steps)
  then show ?thesis by (simp add: keeps_ident_def)
qed

lemma get_ct_update_same: "get_ct (update f p t) p = map_option f (get_ct t p)"
proof (induction p arbitrary: t)
  case Nil
  show ?case by (cases t) (simp add: get_ct_def)
next
  case (Cons i p)
  obtain c ts where t: "t = Node c ts" by (cases t) auto
  show ?case using Cons[of "ts ! i"] t by (simp add: get_ct_def)
qed


text \<open>The definitions that evaluate the operations on the example states.\<close>

lemmas op_defs = Start_body_def Start_begin_def Start_prepared_def PrepareResources_def
  CheckMemGuarantee_def StartTask_def StartTask_dirty_def ApplyDynamicProperties_def
  apply_simple_def apply_mem_limit_def apply_io_weight_def apply_cpu_guarantee_def
  apply_cpu_limit_def apply_sched_policy_def apply_cpu_set_def apply_net_def
  test_clear_def test_dirty_def has_controller_def kwrite_def TestClearPropDirty_def
  TestPropDirty_def HasProp_def RecvOomEvents_def Save_def SetState_def get_ct_def set_ct_def
  DowngradeLock_def UpgradeLock_def IsFrozen_def parent_idle_def IsParentFreezing_def ancestors_def
  bump_starting_def bump_running_def NotifyWaiters_def Let_def FreeResources_def emit_def
  SetProp_def ClearProp_def TContainer_new_def HasResources_def


section \<open>Memory guarantees: results\<close>

text \<open>
  As long as the sum fits in 64 bits, \<open>GetTotalMemGuarantee\<close> is the total of the
  specification and \<open>CheckMemGuarantee\<close> compares it, with the reserve, to the memory
  of the host.
\<close>

lemma unat_max_word: "unat (max (a::64 word) b) = max (unat a) (unat b)"
  by (simp add: max_def word_le_nat_alt)

lemma unat_add64:
  fixes a b :: "64 word"
  assumes "unat a + unat b < 2 ^ 64"
  shows "unat (a + b) = unat a + unat b"
  using assms unat_add_lem[of a b] by simp

lemma foldl_word_sum:
  fixes a :: "64 word"
  assumes "unat a + sum_list (map (\<lambda>c. unat (g c)) ts) < 2 ^ 64"
  shows "unat (foldl (\<lambda>s c. s + g c) a ts) = unat a + sum_list (map (\<lambda>c. unat (g c)) ts)"
  using assms
proof (induction ts arbitrary: a)
  case Nil
  then show ?case by simp
next
  case (Cons c ts)
  have lt: "unat a + unat (g c) < 2 ^ 64" using Cons.prems by simp
  then have u: "unat (a + g c) = unat a + unat (g c)"
    by (rule unat_add64)
  show ?case using Cons.IH[of "a + g c"] Cons.prems u by simp
qed

lemma sum_list_member_le:
  fixes f :: "'a \<Rightarrow> nat"
  shows "x \<in> set xs \<Longrightarrow> f x \<le> sum_list (map f xs)"
  by (induction xs) auto

lemma GetTotalMemGuarantee_spec:
  "spec_total_guarantee t < 2 ^ 64 \<Longrightarrow> unat (GetTotalMemGuarantee t) = spec_total_guarantee t"
proof (induction t)
  case (Node c ts)
  show ?case
  proof (cases "State c = Stopped")
    case True
    then show ?thesis by simp
  next
    case False
    have s: "sum_list (map spec_total_guarantee ts) < 2 ^ 64"
      using Node.prems False by simp
    have each: "\<And>x. x \<in> set ts \<Longrightarrow> unat (GetTotalMemGuarantee x) = spec_total_guarantee x"
    proof -
      fix x assume x: "x \<in> set ts"
      have "spec_total_guarantee x \<le> sum_list (map spec_total_guarantee ts)"
        using x by (rule sum_list_member_le)
      then show "unat (GetTotalMemGuarantee x) = spec_total_guarantee x"
        using Node.IH[OF x] s by simp
    qed
    have m: "map (\<lambda>c. unat (GetTotalMemGuarantee c)) ts = map spec_total_guarantee ts"
      using each by simp
    have "unat (foldl (\<lambda>s c. s + GetTotalMemGuarantee c) 0 ts) =
          unat (0::64 word) + sum_list (map (\<lambda>c. unat (GetTotalMemGuarantee c)) ts)"
      using s by (intro foldl_word_sum) (simp add: m)
    then show ?thesis using False m by (simp add: unat_max_word)
  qed
qed

lemma CheckMemGuarantee_spec:
  assumes "spec_total_guarantee root + unat reserve < 2 ^ 64"
  shows "CheckMemGuarantee host_total reserve root =
           (if spec_total_guarantee root + unat reserve > unat host_total then
              mkError ResourceNotAvailable
                (''Memory guarantee overcommit by '' @
                 to_string (spec_total_guarantee root + unat reserve - unat host_total) @ '' bytes'')
            else OK)"
proof -
  have g: "unat (GetTotalMemGuarantee root) = spec_total_guarantee root"
    using assms by (intro GetTotalMemGuarantee_spec) simp
  have a: "unat (GetTotalMemGuarantee root + reserve) = spec_total_guarantee root + unat reserve"
    using assms g unat_add64[of "GetTotalMemGuarantee root" reserve] by simp
  have lt: "(host_total < GetTotalMemGuarantee root + reserve) =
            (unat host_total < spec_total_guarantee root + unat reserve)"
    by (simp add: word_less_nat_alt a)
  have sub: "host_total < GetTotalMemGuarantee root + reserve \<Longrightarrow>
             unat (GetTotalMemGuarantee root + reserve - host_total) =
             spec_total_guarantee root + unat reserve - unat host_total"
    using a by (simp add: unat_sub word_le_less_eq)
  show ?thesis
    using lt sub by (auto simp: CheckMemGuarantee_def Let_def)
qed



lemma ident_Some:
  assumes "map_option ident (get_ct t' p) = map_option ident (get_ct t p)" "get_ct t p = Some c"
  obtains c' where "get_ct t' p = Some c'" "Id_no c' = Id_no c" "Name c' = Name c"
                   "IsMeta c' = IsMeta c" "Isolate c' = Isolate c"
  using assms by (cases "get_ct t' p") (auto simp: ident_def)

lemma StartParents_direct:
  assumes "get_ct (Tree w) (butlast p) = Some parent" "State parent = Running \<or> State parent = Meta"
          "\<not> IsFrozen (Tree w) (butlast p)"
  shows "StartParents e props p w = (OK, w)"
  using assms by (auto simp: StartParents.simps parent_idle_def)

lemma Start_after_parents:
  assumes "get_ct (Tree w) p = Some c" "State c = Stopped"
          "StartParents e props p w = (perr, w')" "\<not> failed perr"
  shows "Start e props p w = Start_body e props p w'"
  using assms by (simp add: Start.simps)

lemma Start_direct:
  assumes "get_ct (Tree w) p = Some c" "State c = Stopped" "p \<noteq> []"
          "get_ct (Tree w) (butlast p) = Some parent" "State parent = Running \<or> State parent = Meta"
          "\<not> IsFrozen (Tree w) (butlast p)"
  shows "Start e props p w = Start_body e props p w"
  using Start_after_parents[OF assms(1,2) StartParents_direct[OF assms(4,5,6)]] by simp

lemma PrepareResources_check:
  assumes "get_ct (Tree w) p = Some c" "p \<noteq> []"
          "failed (CheckMemGuarantee (host_memory e) (memory_guarantee_reserve e) (Tree w))"
  shows "fst (PrepareResources e p w) =
         CheckMemGuarantee (host_memory e) (memory_guarantee_reserve e) (Tree w)"
  using assms by (simp add: PrepareResources_def)

lemma Start_body_check:
  assumes "get_ct (Tree w) p = Some c" "p \<noteq> []" "\<not> failed (prepare_start e (Id_no c))"
          "failed (CheckMemGuarantee (host_memory e) (memory_guarantee_reserve e)
                     (Tree (Start_begin e p w)))"
  shows "fst (Start_body e props p w) =
         CheckMemGuarantee (host_memory e) (memory_guarantee_reserve e) (Tree (Start_begin e p w))"
proof -
  obtain c' where c': "get_ct (Tree (Start_begin e p w)) p = Some c'"
    using ident_Start_begin[of e p w p] assms(1) by (rule ident_Some)
  have pr: "fst (PrepareResources e p (Start_begin e p w)) =
        CheckMemGuarantee (host_memory e) (memory_guarantee_reserve e) (Tree (Start_begin e p w))"
    using c' assms(2,4) by (rule PrepareResources_check)
  show ?thesis
    using assms(1,3,4) pr by (simp add: Start_body_def Let_def)
qed


text \<open>
  \<open>Start\<close> of a stopped container below a running parent, when the total guarantee
  with the reserve fits in 64 bits: it fails with \<open>ResourceNotAvailable\<close> and the size
  of the overcommit when the total with the reserve exceeds the memory of the host, and
  the check passes otherwise.
\<close>

lemma Start_mem_guarantee:
  assumes "get_ct (Tree w) p = Some c" "State c = Stopped" "p \<noteq> []"
      and "get_ct (Tree w) (butlast p) = Some parent"
      and "State parent = Running \<or> State parent = Meta"
      and "\<not> IsFrozen (Tree w) (butlast p)"
      and "\<not> failed (prepare_start e (Id_no c))"
      and "spec_total_guarantee (Tree (Start_begin e p w)) + unat (memory_guarantee_reserve e) < 2 ^ 64"
  shows "if unat (host_memory e) <
            spec_total_guarantee (Tree (Start_begin e p w)) + unat (memory_guarantee_reserve e)
         then fst (Start e props p w) =
                mkError ResourceNotAvailable
                  (''Memory guarantee overcommit by '' @
                   to_string (spec_total_guarantee (Tree (Start_begin e p w)) +
                              unat (memory_guarantee_reserve e) - unat (host_memory e)) @
                   '' bytes'')
         else CheckMemGuarantee (host_memory e) (memory_guarantee_reserve e)
                (Tree (Start_begin e p w)) = OK"
proof -
  note chk = CheckMemGuarantee_spec[OF assms(8), of "host_memory e"]
  show ?thesis
  proof (cases "unat (host_memory e) <
            spec_total_guarantee (Tree (Start_begin e p w)) + unat (memory_guarantee_reserve e)")
    case True
    then have f: "failed (CheckMemGuarantee (host_memory e) (memory_guarantee_reserve e)
                     (Tree (Start_begin e p w)))"
      using chk by simp
    show ?thesis
      using True chk Start_body_check[OF assms(1,3,7) f, of props]
            Start_direct[OF assms(1-6), of e props]
      by simp
  next
    case False
    then show ?thesis using chk by simp
  qed
qed


lemmas guarantee_defs = ex_env_def ex_props_def state_knob_def guarantee_world_def
  guarantee_root_def guarantee_a_def guarantee_b_def


lemma Start_mem_guarantee_example:
  "fst (Start ex_env ex_props [0] guarantee_world) =
     mkError ResourceNotAvailable ''Memory guarantee overcommit by 184549376 bytes''"
proof -
  have h1: "get_ct (Tree guarantee_world) [0] = Some guarantee_b"
    by (simp add: guarantee_world_def get_ct_def)
  have h2: "State guarantee_b = Stopped"
    by (simp add: guarantee_b_def SetProp_def TContainer_new_def)
  have h3: "[0::nat] \<noteq> []" by simp
  have h4: "get_ct (Tree guarantee_world) (butlast [0]) = Some guarantee_root"
    by (simp add: guarantee_world_def get_ct_def)
  have h5: "State guarantee_root = Running \<or> State guarantee_root = Meta"
    by (simp add: guarantee_root_def)
  have h6: "\<not> IsFrozen (Tree guarantee_world) (butlast [0])"
    by (simp add: guarantee_defs op_defs)
  have h7: "\<not> failed (prepare_start ex_env (Id_no guarantee_b))"
    by (simp add: ex_env_def)
  have total: "spec_total_guarantee (Tree (Start_begin ex_env [0] guarantee_world)) = 1258291200"
    by (simp add: guarantee_defs op_defs)
  have h8: "spec_total_guarantee (Tree (Start_begin ex_env [0] guarantee_world)) +
            unat (memory_guarantee_reserve ex_env) < 2 ^ 64"
    unfolding total by (simp add: ex_env_def)
  have env: "unat (host_memory ex_env) = 1073741824" "unat (memory_guarantee_reserve ex_env) = 0"
    by (simp_all add: ex_env_def)
  have digits: "to_string 184549376 = ''184549376''"
    by (simp add: to_string.simps)
  from Start_mem_guarantee[OF h1 h2 h3 h4 h5 h6 h7 h8, of ex_props]
  show ?thesis by (simp add: total env digits)
qed

lemmas overflow_defs = overflow_env_def ex_env_def ex_props_def state_knob_def overflow_world_def
  meta_root_def overflow_a_def


text \<open>
  Claim C8. \<open>Start\<close> fails with \<open>ResourceNotAvailable\<close> when the total memory
  guarantee of the root container plus the configured reserve exceeds the memory of the
  host. With a guarantee of \<open>2^64 - 1\<close> bytes on the stopped container \<open>a\<close>, a reserve
  of one byte and a host of 1 GiB the total with the reserve exceeds the host memory,
  yet the check passes and \<open>Start\<close> succeeds: \<^verbatim>\<open>usage + reserve\<close> wraps around to zero.
\<close>

theorem Start_mem_guarantee_overflow:
  "unat (host_memory overflow_env) <
     spec_total_guarantee (Tree (Start_begin overflow_env [0] overflow_world)) +
     unat (memory_guarantee_reserve overflow_env) \<and>
   fst (PrepareResources overflow_env [0] (Start_begin overflow_env [0] overflow_world)) = OK \<and>
   fst (Start overflow_env ex_props [0] overflow_world) = OK"
proof -
  have a: "unat (host_memory overflow_env) <
     spec_total_guarantee (Tree (Start_begin overflow_env [0] overflow_world)) +
     unat (memory_guarantee_reserve overflow_env)"
    by (simp add: overflow_defs op_defs)
  have b: "fst (PrepareResources overflow_env [0] (Start_begin overflow_env [0] overflow_world)) = OK"
    by (simp add: overflow_defs op_defs)
  have c: "fst (Start overflow_env ex_props [0] overflow_world) = OK"
    by (simp add: Start.simps StartParents.simps overflow_defs op_defs)
  show ?thesis using a b c by simp
qed


section \<open>Start under memory pressure: results\<close>

lemma RecvOomEvents_true:
  assumes "get_ct (Tree w) p = Some c" "oom_event_read e (Id_no c) = Some v" "v \<noteq> 0"
          "0 \<le> oom_event_fd e (Id_no c)"
  shows "fst (RecvOomEvents e p w)"
  using assms by (simp add: RecvOomEvents_def)

lemma StartTask_oom:
  assumes c: "get_ct (Tree w) p = Some c" and "p \<noteq> []"
      and "\<not> failed (start_network e (Id_no c))"
      and "\<not> failed (fst (ApplyDynamicProperties e p (StartTask_dirty p w)))"
      and "\<not> failed (open_namespaces e (Id_no c))"
      and "\<not> failed (prepare_task e (Id_no c))"
      and "\<not> (IsMeta c \<and> \<not> Isolate c \<and> no_new_namespace e (Id_no c))"
      and "failed (task_start e (Id_no c))"
      and "oom_event_read e (Id_no c) = Some v" "v \<noteq> 0" "0 \<le> oom_event_fd e (Id_no c)"
  shows "fst (StartTask e p w) =
         mkError ResourceNotAvailable
           (''OOM at container '' @ Name c @ '' start: '' @ format_error e (task_start e (Id_no c)))"
proof -
  let ?a = "ApplyDynamicProperties e p (StartTask_dirty p w)"
  have "map_option ident (get_ct (Tree (snd ?a)) p) = map_option ident (get_ct (Tree w) p)"
    by (simp add: ident_ApplyDynamicProperties StartTask_dirty_def
        get_ct_update_frame[where F=ident])
  then obtain c' where c': "get_ct (Tree (snd ?a)) p = Some c'" "Id_no c' = Id_no c"
    using c by (rule ident_Some)
  have "fst (RecvOomEvents e p (snd ?a))"
    using c' assms(9-11) by (intro RecvOomEvents_true[of _ _ c' _ v]) simp_all
  then show ?thesis
    using assms(1-8) by (auto simp: StartTask_def Let_def)
qed

lemma Start_body_task_failed:
  assumes "get_ct (Tree w) p = Some c" "\<not> failed (prepare_start e (Id_no c))"
          "\<not> failed (fst (PrepareResources e p (Start_begin e p w)))"
          "failed (fst (StartTask e p (Start_prepared e p w)))"
  shows "fst (Start_body e props p w) = fst (StartTask e p (Start_prepared e p w))"
  using assms by (simp add: Start_body_def Let_def)


text \<open>
  Claim C9. When the launcher of the task fails during \<open>Start\<close> and an OOM event has
  been received for the container, the caller gets \<open>ResourceNotAvailable\<close> with the
  text \<^verbatim>\<open>OOM at container <name> start: <error of the launcher>\<close>, whatever the
  kind of the launcher's error: never \<open>Unknown\<close>. Here \<open>w'\<close> is the state after
  \<^verbatim>\<open>StartParents\<close>, and the steps of \<open>Start\<close> before the launcher succeed.
\<close>

theorem Start_oom:
  assumes "get_ct (Tree w) p = Some c0" "State c0 = Stopped" "p \<noteq> []"
      and "StartParents e props p w = (perr, w')" "\<not> failed perr"
      and "get_ct (Tree w') p = Some c"
      and "\<not> failed (prepare_start e (Id_no c))"
      and "\<not> failed (fst (PrepareResources e p (Start_begin e p w')))"
      and "\<not> failed (start_network e (Id_no c))"
      and "\<not> failed (fst (ApplyDynamicProperties e p (StartTask_dirty p (Start_prepared e p w'))))"
      and "\<not> failed (open_namespaces e (Id_no c))"
      and "\<not> failed (prepare_task e (Id_no c))"
      and "\<not> (IsMeta c \<and> \<not> Isolate c \<and> no_new_namespace e (Id_no c))"
      and "failed (task_start e (Id_no c))"
      and "oom_event_read e (Id_no c) = Some v" "v \<noteq> 0" "0 \<le> oom_event_fd e (Id_no c)"
  shows "fst (Start e props p w) =
           mkError ResourceNotAvailable
             (''OOM at container '' @ Name c @ '' start: '' @
              format_error e (task_start e (Id_no c))) \<and>
         Error (fst (Start e props p w)) \<noteq> Unknown"
proof -
  obtain c' where c': "get_ct (Tree (Start_prepared e p w')) p = Some c'" "Id_no c' = Id_no c"
      "Name c' = Name c" "IsMeta c' = IsMeta c" "Isolate c' = Isolate c"
    using ident_Start_prepared[of e p w' p] assms(6) by (rule ident_Some)
  have t: "fst (StartTask e p (Start_prepared e p w')) =
           mkError ResourceNotAvailable
             (''OOM at container '' @ Name c' @ '' start: '' @
              format_error e (task_start e (Id_no c')))"
    using assms(3,9-17) unfolding c'(2-5)[symmetric]
    by (intro StartTask_oom[OF c'(1)])
  then have f: "failed (fst (StartTask e p (Start_prepared e p w')))" by simp
  have "fst (Start e props p w) = fst (StartTask e p (Start_prepared e p w'))"
    using Start_after_parents[OF assms(1,2,4,5)]
          Start_body_task_failed[OF assms(6,7,8) f, of props] by simp
  then show ?thesis using t c' by simp
qed

lemmas oom_defs = oom_env_def ex_env_def ex_props_def state_knob_def oom_world_def
  meta_root_def oom_a_def


theorem Start_oom_witness:
  "fst (Start oom_env ex_props [0] oom_world) =
     mkError ResourceNotAvailable ''OOM at container a start: fork''"
proof -
  have h1: "get_ct (Tree oom_world) [0] = Some oom_a"
    by (simp add: oom_world_def get_ct_def)
  have a: "State oom_a = Stopped" "Id_no oom_a = 2" "Name oom_a = ''a''" "\<not> IsMeta oom_a"
    by (simp_all add: oom_a_def SetProp_def TContainer_new_def)
  have h3: "[0::nat] \<noteq> []" by simp
  have h4: "StartParents oom_env ex_props [0] oom_world = (OK, oom_world)"
    by (simp add: StartParents.simps oom_defs op_defs)
  have h5: "\<not> failed OK" by simp
  have e: "\<not> failed (prepare_start oom_env (Id_no oom_a))"
          "\<not> failed (start_network oom_env (Id_no oom_a))"
          "\<not> failed (open_namespaces oom_env (Id_no oom_a))"
          "\<not> failed (prepare_task oom_env (Id_no oom_a))"
          "failed (task_start oom_env (Id_no oom_a))"
          "oom_event_read oom_env (Id_no oom_a) = Some 1"
          "0 \<le> oom_event_fd oom_env (Id_no oom_a)"
          "format_error oom_env (task_start oom_env (Id_no oom_a)) = ''fork''"
    by (simp_all add: oom_env_def ex_env_def failed_def)
  have h8: "\<not> failed (fst (PrepareResources oom_env [0] (Start_begin oom_env [0] oom_world)))"
    by (simp add: oom_defs op_defs)
  have h10: "\<not> failed (fst (ApplyDynamicProperties oom_env [0]
                (StartTask_dirty [0] (Start_prepared oom_env [0] oom_world))))"
    by (simp add: oom_defs op_defs)
  have h13: "\<not> (IsMeta oom_a \<and> \<not> Isolate oom_a \<and> no_new_namespace oom_env (Id_no oom_a))"
    using a by simp
  have v: "(1::64 word) \<noteq> 0" by simp
  from Start_oom[OF h1 a(1) h3 h4 h5 h1 e(1) h8 e(2) h10 e(3) e(4) h13 e(5) e(6) v e(7)]
  have "fst (Start oom_env ex_props [0] oom_world) =
          mkError ResourceNotAvailable (''OOM at container '' @ Name oom_a @ '' start: '' @
            format_error oom_env (task_start oom_env (Id_no oom_a)))"
    by (rule conjunct1)
  then show ?thesis unfolding a(3) e(8) by simp
qed

section \<open>SetProperty: results\<close>

text \<open>
  Claim C10. \<open>SetProperty\<close> on the root container returns \<open>Permission\<close> for every
  property name and value, and leaves the state as it was.
\<close>

theorem SetProperty_root:
  "SetProperty e props origProperty origValue [] w =
     (mkError Permission ''System containers are read only'', w)"
  by (simp add: SetProperty_def)

theorem SetProperty_root_witness:
  "SetProperty ex_env ex_props ''memory_limit'' ''1'' [] oom_world =
     (mkError Permission ''System containers are read only'', oom_world)"
  by (rule SetProperty_root)

text \<open>
  Claim C5, amended. \<open>SetProperty\<close> on a container with live resources, when
  \<open>ApplyDynamicProperties\<close> fails after the setter succeeded: the error of
  \<open>ApplyDynamicProperties\<close> is returned, after the setter was called again with the
  value the property had before the call and the dirty bit of the property was
  cleared, in the state that \<open>ApplyDynamicProperties\<close> left. With a registry entry whose
  getter reads back what its setter stored, and does not look at the dirty bits, the
  property of the container reads as it did before the call. The container need not be
  as it was before.
\<close>

theorem SetProperty_rewinds:
  assumes "p \<noteq> []" "get_ct (Tree w) p = Some c" "HasResources c"
      and "ParsePropertyName origProperty = (parsed, pname, idx)" "\<not> (parsed \<and> idx = [])"
      and "map_of props pname = Some prop"
      and "SetProperty_set prop idx (string_trim e origValue) c = (err, oldValue, c1)"
      and "\<not> failed err" "HasResources c1"
      and "failed (fst (ApplyDynamicProperties e p (set_ct (\<lambda>_. c1) p w)))"
      and "\<And>d. snd (Get prop (snd (Set prop oldValue d))) = oldValue"
      and "\<And>d dirty. Get prop (d\<lparr>PropDirty := dirty\<rparr>) = Get prop d"
  shows "\<exists>c'. SetProperty e props origProperty origValue p w =
               (fst (ApplyDynamicProperties e p (set_ct (\<lambda>_. c1) p w)),
                set_ct (SetProperty_rewind prop (snd (Get prop c))) p
                  (snd (ApplyDynamicProperties e p (set_ct (\<lambda>_. c1) p w)))) \<and>
              get_ct (Tree (snd (SetProperty e props origProperty origValue p w))) p = Some c' \<and>
              \<not> TestPropDirty c' (Prop prop) \<and>
              snd (Get prop c') = snd (Get prop c)"
proof -
  let ?w1 = "set_ct (\<lambda>_. c1) p w"
  let ?a = "ApplyDynamicProperties e p ?w1"
  have live: "State c \<noteq> Stopped" using assms(3) by (simp add: HasResources_def)
  have old: "snd (Get prop c) = oldValue"
    using assms(7,8) live
    by (auto simp: SetProperty_set_def EnableControllers_def Let_def split: if_splits)
  have "get_ct (Tree ?w1) p = Some c1"
    using assms(2) by (simp add: get_ct_update_same)
  then have "map_option ident (get_ct (Tree (snd ?a)) p) = map_option ident (Some c1)"
    using ident_ApplyDynamicProperties[of e p ?w1 p] by simp
  then obtain c2 where c2: "get_ct (Tree (snd ?a)) p = Some c2"
    by (cases "get_ct (Tree (snd ?a)) p") auto
  let ?c' = "SetProperty_rewind prop oldValue c2"
  have run: "SetProperty e props origProperty origValue p w =
               (fst ?a, set_ct (SetProperty_rewind prop oldValue) p (snd ?a))"
    using assms(1,2,4-10) by (auto simp: SetProperty_def Let_def)
  have at: "get_ct (Tree (snd (SetProperty e props origProperty origValue p w))) p = Some ?c'"
    unfolding run using c2 by (simp add: get_ct_update_same)
  have clean: "\<not> TestPropDirty ?c' (Prop prop)"
    by (simp add: SetProperty_rewind_def TestClearPropDirty_def TestPropDirty_def)
  have val: "snd (Get prop ?c') = oldValue"
    using assms(11,12) by (simp add: SetProperty_rewind_def TestClearPropDirty_def)
  show ?thesis using run at clean val unfolding old by blast
qed

lemmas limit_defs = limit_env_def ex_env_def limit_props_def memory_limit_knob_def state_knob_def
  limit_world_def limit_world_applied_def limit_a_def limit_a_set_def limit_a_applied_def
  group_root_def

theorem SetProperty_rewinds_witness:
  "SetProperty limit_env limit_props ''memory_limit'' ''4096'' [0] limit_world =
     (mkError InvalidValue ''Limit is too low: 4096'', limit_world)"
proof -
  let ?err = "mkError InvalidValue ''Limit is too low: 4096''"
  have h1: "[0::nat] \<noteq> []" by simp
  have h2: "get_ct (Tree limit_world) [0] = Some limit_a"
    by (simp add: limit_world_def get_ct_def)
  have h3: "HasResources limit_a"
    by (simp add: limit_a_def HasResources_def)
  have h4: "ParsePropertyName ''memory_limit'' = (False, ''memory_limit'', [])"
    by (simp add: ParsePropertyName_def)
  have h5: "\<not> (False \<and> ([]::string) = [])" by simp
  have h6: "map_of limit_props ''memory_limit'' = Some memory_limit_knob"
    by (simp add: limit_props_def)
  have h7: "SetProperty_set memory_limit_knob [] (string_trim limit_env ''4096'') limit_a =
              (OK, ''0'', limit_a_set)"
    by (simp add: SetProperty_set_def EnableControllers_def limit_defs SetProp_def
          TContainer_new_def Let_def to_string.simps)
  have h8: "\<not> failed OK" by simp
  have h9: "HasResources limit_a_set"
    by (simp add: limit_a_set_def limit_a_def HasResources_def)
  have a: "ApplyDynamicProperties limit_env [0] (set_ct (\<lambda>_. limit_a_set) [0] limit_world) =
             (?err, limit_world_applied)"
    by (simp add: limit_defs op_defs EBUSY_def failed_def to_string.simps)
  have h10: "failed (fst (ApplyDynamicProperties limit_env [0]
                (set_ct (\<lambda>_. limit_a_set) [0] limit_world)))"
    unfolding a by simp
  have h11: "\<And>d. snd (Get memory_limit_knob (snd (Set memory_limit_knob ''0'' d))) = ''0''"
    by (simp add: memory_limit_knob_def SetProp_def to_string.simps)
  have h12: "\<And>d dirty. Get memory_limit_knob (d\<lparr>PropDirty := dirty\<rparr>) = Get memory_limit_knob d"
    by (simp add: memory_limit_knob_def)
  have old: "snd (Get memory_limit_knob limit_a) = ''0''"
    by (simp add: memory_limit_knob_def limit_a_def TContainer_new_def to_string.simps)
  have restored: "set_ct (SetProperty_rewind memory_limit_knob ''0'') [0] limit_world_applied =
                limit_world"
    by (simp add: SetProperty_rewind_def limit_defs op_defs)
  from SetProperty_rewinds[OF h1 h2 h3 h4 h5 h6 h7 h8 h9 h10 h11 h12]
  show ?thesis unfolding a old by (auto simp: restored)
qed

text \<open>
  The claim as stated fails: the configuration is not always unchanged on error. On
  the running container \<open>a\<close> whose \<^verbatim>\<open>memory_limit\<close> was never set, a limit that the
  kernel refuses is rewound to the previous value, but the setter has marked the
  property as set, and it stays so: the container and the state differ from the initial
  ones.
\<close>

theorem SetProperty_marks_set_counterexample:
  "get_ct (Tree fresh_world) [0] = Some fresh_a \<and> HasResources fresh_a \<and>
   \<not> HasProp fresh_a MEM_LIMIT \<and>
   fst (SetProperty limit_env limit_props ''memory_limit'' ''4096'' [0] fresh_world) =
     mkError InvalidValue ''Limit is too low: 4096'' \<and>
   get_ct (Tree (snd (SetProperty limit_env limit_props ''memory_limit'' ''4096'' [0] fresh_world))) [0]
     = Some limit_a \<and>
   HasProp limit_a MEM_LIMIT \<and> limit_a \<noteq> fresh_a \<and>
   snd (SetProperty limit_env limit_props ''memory_limit'' ''4096'' [0] fresh_world) \<noteq> fresh_world"
proof -
  have r: "SetProperty limit_env limit_props ''memory_limit'' ''4096'' [0] fresh_world =
             (mkError InvalidValue ''Limit is too low: 4096'', limit_world)"
    by (simp add: SetProperty_def ParsePropertyName_def SetProperty_set_def EnableControllers_def
          SetProperty_rewind_def fresh_world_def fresh_a_def limit_defs op_defs EBUSY_def
          failed_def to_string.simps)
  have d: "limit_a \<noteq> fresh_a"
  proof
    assume "limit_a = fresh_a"
    then have "PropSet limit_a = PropSet fresh_a" by simp
    then show False by (simp add: fresh_a_def limit_a_def)
  qed
  have w: "limit_world \<noteq> fresh_world"
  proof
    assume "limit_world = fresh_world"
    then have "get_ct (Tree limit_world) [0] = get_ct (Tree fresh_world) [0]" by simp
    then show False using d by (simp add: limit_world_def fresh_world_def get_ct_def)
  qed
  show ?thesis
    unfolding r using d w
    by (simp add: fresh_world_def limit_world_def get_ct_def fresh_a_def limit_a_def
        HasResources_def HasProp_def)
qed

section \<open>Stop, Pause and Resume: results\<close>

lemmas family_defs = ex_env_def ex_props_def state_knob_def family_world_def
  family_root_def family_a_def family_b_def

lemmas stop_defs = Stop_def Subtree_def Stop_terminate_one_def Terminate_def Thaw_quiet_def
  Stop_clear_def ForgetPid_def


lemma family_counters: "counters_ok (Tree family_world)"
  by (simp add: family_defs SetProp_def TContainer_new_def)


text \<open>
  Claim C3. \<open>Stop\<close> moves every container of the subtree that is not stopped to
  \<open>Stopped\<close> and persists the record of that container. On the running container \<open>a\<close>
  with the running child \<open>a/b\<close>, \<open>Stop\<close> with no timeout succeeds and leaves both
  stopped, but the saved record of \<open>a/b\<close> still says \<^verbatim>\<open>running\<close>: the loop saves the
  record of \<open>a\<close>, on which \<open>Stop\<close> was called, in every iteration.
\<close>

theorem Stop_child_record_stale:
  "fst (Stop ex_env ex_props 0 [0] family_world) = OK \<and>
   map_option State (get_ct (Tree (snd (Stop ex_env ex_props 0 [0] family_world))) [0, 0])
     = Some Stopped \<and>
   saved_state (snd (Stop ex_env ex_props 0 [0] family_world)) 3 = Some ''running'' \<and>
   map_option State (get_ct (Tree (snd (Stop ex_env ex_props 0 [0] family_world))) [0])
     = Some Stopped \<and>
   saved_state (snd (Stop ex_env ex_props 0 [0] family_world)) 2 = Some ''stopped''"
  by (simp add: family_defs stop_defs op_defs saved_state_def to_string.simps)


lemmas group_defs = ex_env_def ex_props_def state_knob_def group_world_def
  group_root_def group_a_def group_b_def

lemmas pause_defs = Pause_def Resume_def Resume_one_def Subtree_def Thaw_quiet_def


lemma group_paused:
  "fst (Pause ex_env ex_props [0] group_world) = OK"
  "state_at (snd (Pause ex_env ex_props [0] group_world)) [0] = Some Paused"
  "state_at (snd (Pause ex_env ex_props [0] group_world)) [0, 0] = Some Paused"
  by (simp_all add: group_defs pause_defs op_defs state_at_def to_string.simps)


text \<open>
  Claim C4. \<open>Pause\<close> followed by \<open>Resume\<close> restores the state each container of the
  subtree had. On the meta container \<open>a\<close> with the running child \<open>a/b\<close> both calls
  succeed, and \<open>a/b\<close>, which was \<open>Running\<close>, ends in \<open>Meta\<close>: the loop of \<open>Resume\<close>
  chooses the state by \<^verbatim>\<open>IsMeta()\<close> of \<open>a\<close>, on which \<open>Resume\<close> was called.
\<close>

theorem Pause_Resume_child_of_meta:
  "state_at group_world [0] = Some Meta \<and>
   state_at group_world [0, 0] = Some Running \<and>
   fst (Pause ex_env ex_props [0] group_world) = OK \<and>
   fst (Resume ex_env ex_props [0] (snd (Pause ex_env ex_props [0] group_world))) = OK \<and>
   state_at (snd (Resume ex_env ex_props [0] (snd (Pause ex_env ex_props [0] group_world)))) [0]
     = Some Meta \<and>
   state_at (snd (Resume ex_env ex_props [0] (snd (Pause ex_env ex_props [0] group_world)))) [0, 0]
     = Some Meta"
  by (simp add: group_defs pause_defs op_defs state_at_def to_string.simps)


text \<open>\<open>Resume\<close> of a container that is not paused is refused with \<open>InvalidState\<close>.\<close>

lemma Resume_not_paused:
  assumes "get_ct (Tree w) p = Some c" "CGROUP_FREEZER \<in> Controllers c"
    "\<not> SelfFreezing c"
  shows "Error (fst (Resume e props p w)) = InvalidState \<and> snd (Resume e props p w) = w"
  using assms by (simp add: Resume_def mkError_def)

section \<open>Distribution of CPUs: results\<close>

lemma place_finish_ok:
  assumes "place_finish parent ct affinity vg = (err, parent', ct', vg')" "\<not> failed err"
  shows "CpuSetType ct' = CpuSetType ct \<and> State ct' = State ct \<and>
         vg' = vg + (if card (CpuReserve ct') = 0 then max (CpuGuarantee ct') (CpuGuaranteeSum ct') else 0)"
  using assms
  by (auto simp: place_finish_def Let_def SetProp_def split: if_splits)

lemma place_child_ok:
  assumes "place_child topo is_root type parent vg ct = (err, parent', ct', vg')" "\<not> failed err"
  shows "kept type ct ct' \<and> vg' = vg + contrib type ct'"
proof (cases "CpuSetType ct \<noteq> type \<or> State ct = Stopped \<or> State ct = Dead")
  case True
  then show ?thesis using assms
    by (auto simp: place_child_def kept_def contrib_def unreserved_def)
next
  case False
  then show ?thesis using assms
    by (cases type)
       (auto simp: place_child_def Let_def kept_def contrib_def unreserved_def
             split: if_splits prod.splits dest!: place_finish_ok)
qed

lemma place_pass_ok:
  assumes "place_pass topo is_root type parent vg cts = (err, parent', cts', vg')" "\<not> failed err"
  shows "list_all2 (kept type) cts cts' \<and> vg' = vg + sum_list (map (contrib type) cts')"
  using assms
proof (induction cts arbitrary: parent vg cts' parent' vg' err)
  case Nil
  then show ?case by simp
next
  case (Cons ct cts)
  obtain e1 p1 c1 v1 where pc: "place_child topo is_root type parent vg ct = (e1, p1, c1, v1)"
    by (cases "place_child topo is_root type parent vg ct") auto
  obtain e2 p2 cs2 v2 where pp: "place_pass topo is_root type p1 v1 cts = (e2, p2, cs2, v2)"
    by (cases "place_pass topo is_root type p1 v1 cts") auto
  have nf: "\<not> failed e1" using Cons.prems pc by (auto split: if_splits)
  from Cons.prems pc pp nf have eq: "err = e2" "parent' = p2" "cts' = c1 # cs2" "vg' = v2"
    by auto
  from place_child_ok[OF pc nf] have k1: "kept type ct c1" and v1: "v1 = vg + contrib type c1" by auto
  from Cons.IH[OF pp] Cons.prems(2) eq
  have "list_all2 (kept type) cts cs2" and "v2 = v1 + sum_list (map (contrib type) cs2)" by auto
  then show ?case using eq k1 v1 by (simp add: add.assoc)
qed

lemma contrib_kept:
  "kept type' c c' \<Longrightarrow> type \<noteq> type' \<Longrightarrow> contrib type c' = contrib type c"
  by (auto simp: kept_def contrib_def)

lemma sum_contrib_kept:
  "list_all2 (kept type') cts cts' \<Longrightarrow> type \<noteq> type' \<Longrightarrow>
   sum_list (map (contrib type) cts') = sum_list (map (contrib type) cts)"
  by (induction rule: list_all2_induct) (auto simp: contrib_kept)

lemma place_all_kept:
  assumes "place_all topo is_root types parent vg cts = (err, parent', cts', vg')" "\<not> failed err"
          "type \<notin> set types"
  shows "sum_list (map (contrib type) cts') = sum_list (map (contrib type) cts)"
  using assms
proof (induction types arbitrary: parent vg cts)
  case Nil
  then show ?case by simp
next
  case (Cons t types)
  obtain e1 p1 cs1 v1 where pp: "place_pass topo is_root t parent vg cts = (e1, p1, cs1, v1)"
    by (cases "place_pass topo is_root t parent vg cts") auto
  have nf: "\<not> failed e1" using Cons.prems pp by (auto split: if_splits)
  then have pa: "place_all topo is_root types p1 v1 cs1 = (err, parent', cts', vg')"
    using Cons.prems pp by simp
  have "sum_list (map (contrib type) cs1) = sum_list (map (contrib type) cts)"
    using place_pass_ok[OF pp nf] Cons.prems(3) by (intro sum_contrib_kept[of t]) auto
  then show ?case using Cons.IH[OF pa Cons.prems(2)] Cons.prems(3) by simp
qed

lemma place_all_ok:
  assumes "place_all topo is_root types parent vg cts = (err, parent', cts', vg')" "\<not> failed err"
          "distinct types"
  shows "vg' = vg + sum_list (map (\<lambda>c. sum_list (map (\<lambda>t. contrib t c) types)) cts')"
  using assms
proof (induction types arbitrary: parent vg cts)
  case Nil
  then show ?case by simp
next
  case (Cons t types)
  obtain e1 p1 cs1 v1 where pp: "place_pass topo is_root t parent vg cts = (e1, p1, cs1, v1)"
    by (cases "place_pass topo is_root t parent vg cts") auto
  have nf: "\<not> failed e1" using Cons.prems pp by (auto split: if_splits)
  then have pa: "place_all topo is_root types p1 v1 cs1 = (err, parent', cts', vg')"
    using Cons.prems pp by simp
  have v1: "v1 = vg + sum_list (map (contrib t) cs1)" using place_pass_ok[OF pp nf] by simp
  have keep: "sum_list (map (contrib t) cts') = sum_list (map (contrib t) cs1)"
    using place_all_kept[OF pa Cons.prems(2)] Cons.prems(3) by simp
  have "vg' = v1 + sum_list (map (\<lambda>c. sum_list (map (\<lambda>t. contrib t c) types)) cts')"
    using Cons.IH[OF pa Cons.prems(2)] Cons.prems(3) by simp
  then show ?case using v1 keep by (simp add: sum_list_addf add.assoc)
qed

lemma contrib_order:
  "sum_list (map (\<lambda>t. contrib t c) cpu_set_order) =
   (if unreserved c then max (CpuGuarantee c) (CpuGuaranteeSum c) else 0)"
  by (cases "CpuSetType c") (simp_all add: cpu_set_order_def contrib_def)

lemma sum_list_if_filter:
  fixes f :: "'a \<Rightarrow> 64 word"
  shows "sum_list (map (\<lambda>x. if P x then f x else 0) xs) = sum_list (map f (filter P xs))"
  by (induction xs) auto

lemma place_all_unreserved:
  assumes "place_all topo is_root cpu_set_order parent 0 cts = (err, parent', cts', vg')" "\<not> failed err"
  shows "vg' = vacantGuarantee_sum cts'"
proof -
  have "distinct cpu_set_order" by (simp add: cpu_set_order_def)
  from place_all_ok[OF assms this]
  show ?thesis unfolding contrib_order sum_list_if_filter vacantGuarantee_sum_def by simp
qed

lemma unat_sum_list64:
  fixes f :: "'a \<Rightarrow> 64 word"
  assumes "sum_list (map (\<lambda>x. unat (f x)) xs) < 2 ^ 64"
  shows "unat (sum_list (map f xs)) = sum_list (map (\<lambda>x. unat (f x)) xs)"
  using assms
proof (induction xs)
  case Nil
  show ?case by simp
next
  case (Cons x xs)
  have rest: "unat (sum_list (map f xs)) = sum_list (map (\<lambda>x. unat (f x)) xs)"
    using Cons by simp
  have "unat (f x + sum_list (map f xs)) = unat (f x) + unat (sum_list (map f xs))"
    using Cons.prems rest by (intro unat_add64) simp
  then show ?case using rest by simp
qed

lemma vacantGuarantee_sum_spec:
  assumes "spec_unreserved_guarantee cts < 2 ^ 64"
  shows "unat (vacantGuarantee_sum cts) = spec_unreserved_guarantee cts"
  using assms unat_sum_list64[of "\<lambda>ct. max (CpuGuarantee ct) (CpuGuaranteeSum ct)" "filter unreserved cts"]
  by (simp add: vacantGuarantee_sum_def spec_unreserved_guarantee_def unat_max_word)

lemma vacant_power:
  assumes "n * unat CPU_POWER_PER_SEC < 2 ^ 64"
  shows "unat (of_nat n * CPU_POWER_PER_SEC) = n * unat CPU_POWER_PER_SEC"
proof -
  have p: "unat CPU_POWER_PER_SEC = 1000000000" by (simp add: CPU_POWER_PER_SEC_def)
  have n: "n < 2 ^ 64" using assms unfolding p by simp
  have u: "unat (of_nat n :: 64 word) = n" using n by (simp add: unat_of_nat)
  have "unat (of_nat n :: 64 word) * unat CPU_POWER_PER_SEC < 2 ^ LENGTH(64)"
    using assms unfolding u by simp
  then have "unat (of_nat n * CPU_POWER_PER_SEC) = unat (of_nat n :: 64 word) * unat CPU_POWER_PER_SEC"
    by (simp only: unat_mult_lem)
  then show ?thesis unfolding u .
qed

text \<open>
  Claim C7, amended. For a parent that is running or meta and has children, when the
  placement of the children succeeds and neither the sum over the unreserved children
  of the maximum of \<^verbatim>\<open>CpuGuarantee\<close> and \<^verbatim>\<open>CpuGuaranteeSum\<close> nor the power of the
  vacant CPUs of the parent reaches \<open>2^64\<close>: when the sum is larger than that power and
  no CPU of the parent is reserved (\<^verbatim>\<open>CpuVacant\<close> equals \<^verbatim>\<open>CpuAffinity\<close>), the overcommit
  is logged and the distribution goes on; when the sum is larger, some CPUs are
  reserved and the container on which \<^verbatim>\<open>DistributeCpus\<close> was called has a parent, of
  name \<open>name\<close>, the distribution fails with \<open>ResourceNotAvailable\<close>; when the sum is not
  larger the test passes. Nothing is said here of a sum that does not fit in 64 bits,
  nor of the failing case when \<^verbatim>\<open>DistributeCpus\<close> was called on the root container,
  which has no parent.
\<close>

theorem distribute_parent_overcommit:
  assumes "State parent \<noteq> Stopped" "State parent \<noteq> Dead" "childs \<noteq> []"
      and "place_all topo is_root cpu_set_order parent 0 childs = (err, parent1, childs1, vg)"
      and "\<not> failed err"
      and "spec_unreserved_guarantee childs1 < 2 ^ 64"
      and "card (CpuVacant parent1) * unat CPU_POWER_PER_SEC < 2 ^ 64"
  shows "snd (distribute_parent topo is_root this_parent parent childs) = (parent1, childs1) \<and>
         (spec_unreserved_guarantee childs1 \<le> card (CpuVacant parent1) * unat CPU_POWER_PER_SEC \<longrightarrow>
            fst (distribute_parent topo is_root this_parent parent childs) = CheckPass) \<and>
         (card (CpuVacant parent1) * unat CPU_POWER_PER_SEC < spec_unreserved_guarantee childs1 \<and>
          CpuVacant parent1 = CpuAffinity parent1 \<longrightarrow>
            fst (distribute_parent topo is_root this_parent parent childs) =
              CheckLogged (''CPU guarantee overcommit in CT'' @ to_string (Id_no parent1) @
                           '':'' @ Name parent1)) \<and>
         (card (CpuVacant parent1) * unat CPU_POWER_PER_SEC < spec_unreserved_guarantee childs1 \<and>
          CpuVacant parent1 \<noteq> CpuAffinity parent1 \<and> this_parent = Some name \<longrightarrow>
            fst (distribute_parent topo is_root this_parent parent childs) =
              CheckFailed (mkError ResourceNotAvailable
                (''Not enough cpus for cpu_guarantee in CT'' @ to_string (Id_no parent1) @
                 '':'' @ name)))"
proof -
  have vg: "vg = vacantGuarantee_sum childs1"
    using assms(4,5) by (rule place_all_unreserved)
  have run: "distribute_parent topo is_root this_parent parent childs =
          (guarantee_check this_parent parent1 vg, parent1, childs1)"
    using assms(1-5) by (simp add: distribute_parent_def)
  have cmp: "(of_nat (card (CpuVacant parent1)) * CPU_POWER_PER_SEC < vg) =
             (card (CpuVacant parent1) * unat CPU_POWER_PER_SEC < spec_unreserved_guarantee childs1)"
    unfolding vg word_less_nat_alt vacantGuarantee_sum_spec[OF assms(6)] vacant_power[OF assms(7)]
    by simp
  show ?thesis
    unfolding run using cmp by (auto simp: guarantee_check_def)
qed

lemmas cpu_defs = two_cpus_def cpu_parent_def cpu_greedy_def cpu_pinned_def TContainer_new_def
  SetProp_def

lemma two_cpus_pass_cores:
  "ReserveCpus_pass two_cpus
     \<lparr>nr_threads = Suc 0, nr_cores = 0, try_thread = True, threads = {}, cores = {},
      vacant = {0, 2}, stop = False\<rparr> =
     \<lparr>nr_threads = Suc 0, nr_cores = 0, try_thread = True, threads = {}, cores = {},
      vacant = {0, 2}, stop = False\<rparr>"
  by (simp add: two_cpus_def ReserveCpus_pass_def ReserveCpus_step_def bm_Size_def upt_rec
      Let_def)

lemma two_cpus_pass_threads:
  "ReserveCpus_pass two_cpus
     \<lparr>nr_threads = Suc 0, nr_cores = 0, try_thread = False, threads = {}, cores = {},
      vacant = {0, 2}, stop = False\<rparr> =
     \<lparr>nr_threads = 0, nr_cores = 0, try_thread = True, threads = {0}, cores = {},
      vacant = {2}, stop = False\<rparr>"
  by (simp add: two_cpus_def ReserveCpus_pass_def ReserveCpus_step_def bm_Size_def
      upt_rec Let_def)

lemma two_cpus_again:
  "ReserveCpus_again two_cpus
     \<lparr>nr_threads = Suc 0, nr_cores = 0, try_thread = True, threads = {}, cores = {},
      vacant = {0, 2}, stop = False\<rparr> =
     \<lparr>nr_threads = 0, nr_cores = 0, try_thread = True, threads = {0}, cores = {},
      vacant = {2}, stop = False\<rparr>"
  apply (subst ReserveCpus_again.simps)
  apply (simp add: two_cpus_pass_cores)
  apply (subst ReserveCpus_again.simps)
  apply (simp add: two_cpus_pass_threads)
  done

lemma two_cpus_reserve:
  "ReserveCpus two_cpus False (Suc 0) 0 cpu_parent = (OK, cpu_parent\<lparr>CpuVacant := {2}\<rparr>, {0}, {})"
proof -
  have v: "CpuVacant cpu_parent = {0, 2}"
    by (simp add: cpu_parent_def)
  show ?thesis
    by (simp add: ReserveCpus_def v two_cpus_again)
qed

lemmas place_defs2 = distribute_parent_def cpu_set_order_def place_child_def place_finish_def
  guarantee_check_def CPU_POWER_PER_SEC_def Let_def

lemma cpu_facts:
  "CpuSetArg cpu_pinned = Suc 0" "CpuSetType cpu_pinned = Threads" "State cpu_pinned = Running"
  "CpuSetType cpu_greedy = Inherit" "State cpu_greedy = Running" "State cpu_parent = Meta"
  by (simp_all add: cpu_defs)


lemma parent_facts:
  "CpuVacant cpu_parent = {0, 2}" "CpuAffinity cpu_parent = {0, 2}" "State cpu_parent = Meta"
  "Id_no cpu_parent = 2" "Name cpu_parent = ''a''"
  by (simp_all add: cpu_parent_def TContainer_new_def)


lemma two_cpus_placed:
  "\<not> failed (fst (place_all two_cpus False cpu_set_order cpu_parent 0 [cpu_greedy, cpu_pinned]))"
  "CpuVacant (fst (snd (place_all two_cpus False cpu_set_order cpu_parent 0
      [cpu_greedy, cpu_pinned]))) = {2}"
  "CpuAffinity (fst (snd (place_all two_cpus False cpu_set_order cpu_parent 0
      [cpu_greedy, cpu_pinned]))) = {0, 2}"
  "Id_no (fst (snd (place_all two_cpus False cpu_set_order cpu_parent 0
      [cpu_greedy, cpu_pinned]))) = 2"
  "snd (snd (snd (place_all two_cpus False cpu_set_order cpu_parent 0
      [cpu_greedy, cpu_pinned]))) = 3000000000"
  by (simp_all add: place_defs2 two_cpus_reserve parent_facts cpu_greedy_def cpu_pinned_def
      TContainer_new_def SetProp_def)


lemma two_cpus_placed2:
  "spec_unreserved_guarantee (fst (snd (snd (place_all two_cpus False cpu_set_order cpu_parent 0
      [cpu_greedy, cpu_pinned])))) = 3000000000"
  by (simp add: place_defs2 two_cpus_reserve parent_facts cpu_greedy_def cpu_pinned_def
      TContainer_new_def SetProp_def spec_unreserved_guarantee_def unreserved_def)

theorem distribute_parent_overcommit_witness:
  "fst (distribute_parent two_cpus False (Some ''/'') cpu_parent [cpu_greedy, cpu_pinned]) =
     CheckFailed (mkError ResourceNotAvailable ''Not enough cpus for cpu_guarantee in CT2:/'')"
proof -
  let ?X = "place_all two_cpus False cpu_set_order cpu_parent 0 [cpu_greedy, cpu_pinned]"
  have h1: "State cpu_parent \<noteq> Stopped" and h2: "State cpu_parent \<noteq> Dead"
    by (simp_all add: parent_facts)
  have h3: "[cpu_greedy, cpu_pinned] \<noteq> []" by simp
  have h4: "?X = (fst ?X, fst (snd ?X), fst (snd (snd ?X)), snd (snd (snd ?X)))" by simp
  have h6: "spec_unreserved_guarantee (fst (snd (snd ?X))) < 2 ^ 64"
    unfolding two_cpus_placed2 by simp
  have h7: "card (CpuVacant (fst (snd ?X))) * unat CPU_POWER_PER_SEC < 2 ^ 64"
    unfolding two_cpus_placed(2) by (simp add: CPU_POWER_PER_SEC_def)
  have over: "card (CpuVacant (fst (snd ?X))) * unat CPU_POWER_PER_SEC <
              spec_unreserved_guarantee (fst (snd (snd ?X)))"
    unfolding two_cpus_placed(2) two_cpus_placed2 by (simp add: CPU_POWER_PER_SEC_def)
  have differ: "CpuVacant (fst (snd ?X)) \<noteq> CpuAffinity (fst (snd ?X))"
    unfolding two_cpus_placed(2,3) by simp
  from distribute_parent_overcommit[OF h1 h2 h3 h4 two_cpus_placed(1) h6 h7,
      of "Some ''/''" "''/''"] over differ
  have "fst (distribute_parent two_cpus False (Some ''/'') cpu_parent [cpu_greedy, cpu_pinned]) =
          CheckFailed (mkError ResourceNotAvailable
            (''Not enough cpus for cpu_guarantee in CT'' @ to_string (Id_no (fst (snd ?X))) @
             '':'' @ ''/''))"
    by blast
  then show ?thesis unfolding two_cpus_placed(4) by (simp add: to_string.simps)
qed


text \<open>
  The claim as stated fails in both directions. With the child \<open>a/greedy\<close> alone the
  guarantee of three CPUs exceeds the two vacant CPUs of \<open>a\<close>, which are all of its
  affinity, and the overcommit is only logged. With \<open>a/pinned\<close> beside it, one CPU is
  reserved, the vacant CPUs are no longer the affinity, and the distribution fails.
\<close>

theorem distribute_parent_overcommit_counterexample:
  "fst (distribute_parent two_cpus False (Some ''/'') cpu_parent [cpu_greedy]) =
     CheckLogged ''CPU guarantee overcommit in CT2:a'' \<and>
   CpuVacant (fst (snd (distribute_parent two_cpus False (Some ''/'') cpu_parent [cpu_greedy]))) =
     CpuAffinity (fst (snd (distribute_parent two_cpus False (Some ''/'') cpu_parent [cpu_greedy]))) \<and>
   fst (distribute_parent two_cpus False (Some ''/'') cpu_parent [cpu_greedy, cpu_pinned]) =
     CheckFailed (mkError ResourceNotAvailable ''Not enough cpus for cpu_guarantee in CT2:/'') \<and>
   CpuVacant (fst (snd (distribute_parent two_cpus False (Some ''/'') cpu_parent
       [cpu_greedy, cpu_pinned]))) \<noteq>
     CpuAffinity (fst (snd (distribute_parent two_cpus False (Some ''/'') cpu_parent
       [cpu_greedy, cpu_pinned])))"
proof -
  have a: "fst (distribute_parent two_cpus False (Some ''/'') cpu_parent [cpu_greedy]) =
     CheckLogged ''CPU guarantee overcommit in CT2:a''"
    by (simp add: cpu_defs place_defs2 to_string.simps)
  have b: "CpuVacant (fst (snd (distribute_parent two_cpus False (Some ''/'') cpu_parent [cpu_greedy]))) =
     CpuAffinity (fst (snd (distribute_parent two_cpus False (Some ''/'') cpu_parent [cpu_greedy])))"
    by (simp add: cpu_defs place_defs2)
  have c: "fst (distribute_parent two_cpus False (Some ''/'') cpu_parent [cpu_greedy, cpu_pinned]) =
     CheckFailed (mkError ResourceNotAvailable ''Not enough cpus for cpu_guarantee in CT2:/'')"
    by (simp add: place_defs2 two_cpus_reserve parent_facts cpu_greedy_def cpu_pinned_def
      TContainer_new_def SetProp_def to_string.simps)
  have d: "CpuVacant (fst (snd (distribute_parent two_cpus False (Some ''/'') cpu_parent
       [cpu_greedy, cpu_pinned]))) \<noteq>
     CpuAffinity (fst (snd (distribute_parent two_cpus False (Some ''/'') cpu_parent
       [cpu_greedy, cpu_pinned])))"
    by (simp add: place_defs2 two_cpus_reserve parent_facts cpu_greedy_def cpu_pinned_def
      TContainer_new_def SetProp_def)
  show ?thesis using a b c d by simp
qed

end
